theory Spec2Isabelle
  imports Main
begin

unbundle bit_operations_syntax

section \<open>The Hasher: SHA-256 with a hex digest\<close>

text \<open>
  Both chain classes hash with
  \<^verbatim>\<open>sha256(data) { return crypto.createHash('sha256').update(data).digest('hex'); }\<close>.
  The digest is SHA-256 of the UTF-8 bytes of the string, printed as 64 lower-case hex
  digits. A \<^typ>\<open>string\<close> here is the list of those bytes. The 32-bit words of the
  algorithm are integers, with the wrap-around \<open>mod 2 ^ 32\<close> written out.
\<close>

definition m32 :: "int \<Rightarrow> int" where
  "m32 x = x mod 4294967296"

definition rotr :: "nat \<Rightarrow> int \<Rightarrow> int" where
  "rotr n x = x div 2 ^ n + (x mod 2 ^ n) * 2 ^ (32 - n)"

definition ch :: "int \<Rightarrow> int \<Rightarrow> int \<Rightarrow> int" where
  "ch x y z = (x AND y) XOR ((4294967295 - x) AND z)"

definition maj :: "int \<Rightarrow> int \<Rightarrow> int \<Rightarrow> int" where
  "maj x y z = (x AND y) XOR (x AND z) XOR (y AND z)"

definition bsig0 :: "int \<Rightarrow> int" where
  "bsig0 x = rotr 2 x XOR rotr 13 x XOR rotr 22 x"

definition bsig1 :: "int \<Rightarrow> int" where
  "bsig1 x = rotr 6 x XOR rotr 11 x XOR rotr 25 x"

definition ssig0 :: "int \<Rightarrow> int" where
  "ssig0 x = rotr 7 x XOR rotr 18 x XOR (x div 8)"

definition ssig1 :: "int \<Rightarrow> int" where
  "ssig1 x = rotr 17 x XOR rotr 19 x XOR (x div 1024)"

text \<open>The round constants, in decimal.\<close>

definition K256 :: "int list" where
  "K256 =
    [1116352408, 1899447441, 3049323471, 3921009573, 961987163, 1508970993,
     2453635748, 2870763221, 3624381080, 310598401, 607225278, 1426881987,
     1925078388, 2162078206, 2614888103, 3248222580, 3835390401, 4022224774,
     264347078, 604807628, 770255983, 1249150122, 1555081692, 1996064986,
     2554220882, 2821834349, 2952996808, 3210313671, 3336571891, 3584528711,
     113926993, 338241895, 666307205, 773529912, 1294757372, 1396182291,
     1695183700, 1986661051, 2177026350, 2456956037, 2730485921, 2820302411,
     3259730800, 3345764771, 3516065817, 3600352804, 4094571909, 275423344,
     430227734, 506948616, 659060556, 883997877, 958139571, 1322822218,
     1537002063, 1747873779, 1955562222, 2024104815, 2227730452, 2361852424,
     2428436474, 2756734187, 3204031479, 3329325298]"

fun be_bytes :: "nat \<Rightarrow> int \<Rightarrow> int list" where
  "be_bytes 0 v = []"
| "be_bytes (Suc n) v = be_bytes n (v div 256) @ [v mod 256]"

text \<open>Padding: the byte 128, zeros up to 56 modulo 64, the bit length on 8 bytes.\<close>

definition pad :: "int list \<Rightarrow> int list" where
  "pad bs =
     bs @ [128] @ replicate ((119 - length bs mod 64) mod 64) 0
        @ be_bytes 8 (8 * int (length bs))"

fun words_of :: "int list \<Rightarrow> int list" where
  "words_of (a # b # c # d # r) = (((a * 256 + b) * 256 + c) * 256 + d) # words_of r"
| "words_of _ = []"

fun schedule :: "nat \<Rightarrow> int list \<Rightarrow> int list" where
  "schedule 0 w = w"
| "schedule (Suc n) w =
     (let t = length w
      in schedule n
           (w @ [m32 (ssig1 (w ! (t - 2)) + w ! (t - 7) + ssig0 (w ! (t - 15)) + w ! (t - 16))]))"

type_synonym regs = "int \<times> int \<times> int \<times> int \<times> int \<times> int \<times> int \<times> int"

fun round256 :: "regs \<Rightarrow> int \<times> int \<Rightarrow> regs" where
  "round256 (a, b, c, d, e, f, g, h) (k, w) =
     (let t1 = h + bsig1 e + ch e f g + k + w;
          t2 = bsig0 a + maj a b c
      in (m32 (t1 + t2), a, b, c, m32 (d + t1), e, f, g))"

fun compress :: "regs \<Rightarrow> int list \<Rightarrow> regs" where
  "compress (a, b, c, d, e, f, g, h) blk =
     (case foldl round256 (a, b, c, d, e, f, g, h) (zip K256 (schedule 48 blk)) of
        (a', b', c', d', e', f', g', h') \<Rightarrow>
          (m32 (a + a'), m32 (b + b'), m32 (c + c'), m32 (d + d'),
           m32 (e + e'), m32 (f + f'), m32 (g + g'), m32 (h + h')))"

fun chunks16 :: "nat \<Rightarrow> int list \<Rightarrow> int list list" where
  "chunks16 0 ws = []"
| "chunks16 (Suc n) ws = take 16 ws # chunks16 n (drop 16 ws)"

definition hexdigit :: "int \<Rightarrow> char" where
  "hexdigit n = ''0123456789abcdef'' ! nat n"

definition hex32 :: "int \<Rightarrow> string" where
  "hex32 w = map (\<lambda>i. hexdigit ((w div 16 ^ i) mod 16)) [7, 6, 5, 4, 3, 2, 1, 0]"

fun hex_of_regs :: "regs \<Rightarrow> string" where
  "hex_of_regs (a, b, c, d, e, f, g, h) =
     hex32 a @ hex32 b @ hex32 c @ hex32 d @ hex32 e @ hex32 f @ hex32 g @ hex32 h"

definition sha256 :: "string \<Rightarrow> string" where
  "sha256 s =
     (let ws = words_of (pad (map of_char s))
      in hex_of_regs
           (foldl compress
              (1779033703, 3144134277, 1013904242, 2773480762,
               1359893119, 2600822924, 528734635, 1541459225)
              (chunks16 (length ws div 16) ws)))"

section \<open>JSON values and \<open>JSON.stringify\<close>\<close>

text \<open>
  A transaction payload is any JSON-serialisable structure. An object is the list of its
  properties in the order JavaScript enumerates them. Numbers are the integers (a nonce is
  \<open>Date.now()\<close>, an integer number of milliseconds), printed in decimal as JavaScript
  prints an integer below \<open>10 ^ 21\<close>.
\<close>

datatype json =
    JNull
  | JBool bool
  | JNum int
  | JStr string
  | JArr "json list"
  | JObj "(string \<times> json) list"

function show_digits :: "int \<Rightarrow> string" where
  "show_digits n =
     (if n < 10 then [''0123456789'' ! nat n]
      else show_digits (n div 10) @ [''0123456789'' ! nat (n mod 10)])"
  by pat_completeness auto
termination
  by (relation "measure nat") auto

declare show_digits.simps [simp del]

definition show_int :: "int \<Rightarrow> string" where
  "show_int i = (if i < 0 then CHR ''-'' # show_digits (- i) else show_digits i)"

text \<open>
  \<open>QuoteJSONString\<close>: the quote (byte 34) and the backslash (byte 92) are escaped with
  a backslash, the control characters 8, 9, 10, 12, 13 have the short escapes b, t, n, f, r,
  the other bytes below 32 are written \<open>\u00XX\<close>, every other byte stands for itself.
\<close>

definition escape_char :: "char \<Rightarrow> string" where
  "escape_char c =
     (let n = (of_char c :: nat) in
      if n = 34 then [CHR 0x5C, CHR 0x22]
      else if n = 92 then [CHR 0x5C, CHR 0x5C]
      else if n = 8 then [CHR 0x5C, CHR ''b'']
      else if n = 9 then [CHR 0x5C, CHR ''t'']
      else if n = 10 then [CHR 0x5C, CHR ''n'']
      else if n = 12 then [CHR 0x5C, CHR ''f'']
      else if n = 13 then [CHR 0x5C, CHR ''r'']
      else if n < 32 then
        [CHR 0x5C, CHR ''u'', CHR ''0'', CHR ''0'',
         ''0123456789abcdef'' ! (n div 16), ''0123456789abcdef'' ! (n mod 16)]
      else [c])"

definition quote :: "string \<Rightarrow> string" where
  "quote s = CHR 0x22 # concat (map escape_char s) @ [CHR 0x22]"

fun join_commas :: "string list \<Rightarrow> string" where
  "join_commas [] = []"
| "join_commas [x] = x"
| "join_commas (x # y # zs) = x @ CHR '','' # join_commas (y # zs)"

fun stringify :: "json \<Rightarrow> string" where
  "stringify JNull = ''null''"
| "stringify (JBool b) = (if b then ''true'' else ''false'')"
| "stringify (JNum n) = show_int n"
| "stringify (JStr s) = quote s"
| "stringify (JArr xs) = CHR ''['' # join_commas (map stringify xs) @ '']''"
| "stringify (JObj kvs) =
     CHR ''{'' # join_commas (map (\<lambda>kv. quote (fst kv) @ CHR '':'' # stringify (snd kv)) kvs)
       @ ''}''"

section \<open>Transactions, file-system effects and errors\<close>

text \<open>
  A transaction object has the properties \<open>type\<close>, \<open>data\<close>, \<open>timestamp\<close>,
  \<open>nonce\<close> and \<open>hash\<close>, in this order. The genesis transaction of
  \<^verbatim>\<open>server.js\<close> has no \<open>nonce\<close> property, hence the option.
  \<open>tx_json\<close> is the object as \<open>JSON.stringify(tx)\<close> sees it.
\<close>

record tx =
  tx_type :: string
  tx_data :: json
  tx_timestamp :: string
  tx_nonce :: "int option"
  tx_hash :: string

definition tx_json :: "tx \<Rightarrow> json" where
  "tx_json t =
     JObj ([(''type'', JStr (tx_type t)), (''data'', tx_data t),
            (''timestamp'', JStr (tx_timestamp t))]
           @ (case tx_nonce t of None \<Rightarrow> [] | Some n \<Rightarrow> [(''nonce'', JNum n)])
           @ [(''hash'', JStr (tx_hash t))])"

text \<open>The leaf digest of \<open>calculateMerkleRoot\<close>: \<open>tx => this.sha256(JSON.stringify(tx))\<close>.\<close>

definition tx_leaf :: "tx \<Rightarrow> string" where
  "tx_leaf t = sha256 (stringify (tx_json t))"

text \<open>
  \<open>StorageError\<close>: \<open>fs.writeFileSync\<close> throws. \<open>TypeError\<close>: a property of
  \<open>null\<close> is read (\<open>latestBlock.number\<close> when the latest block file is missing).
\<close>

datatype error = StorageError | TypeError

text \<open>
  The fault of one call: \<open>Some k\<close> when the write number \<open>k\<close> of the call (counted
  from 0) throws, \<open>None\<close> when every write succeeds. A write that throws leaves its file
  as it was.
\<close>

type_synonym fault = "nat option"

record receipt =
  r_txHash :: string
  r_blockNumber :: int
  r_blockHash :: string
  r_timestamp :: string

text \<open>
  The loop of \<open>calculateMerkleRoot\<close>, the same in both classes:
  \<^verbatim>\<open>
  while (hashes.length > 1) {
      const newHashes = [];
      for (let i = 0; i < hashes.length; i += 2) {
          const left = hashes[i];
          const right = hashes[i + 1] || left;
          newHashes.push(this.sha256(left + right));
      }
      hashes = newHashes;
  }
  return hashes[0];\<close>
  \<open>hashes[i + 1] || left\<close> is \<open>left\<close> when the index is out of range
  (\<open>undefined\<close>) and also when the entry is the empty string, which is falsy.
\<close>

function merkle_for :: "string list \<Rightarrow> nat \<Rightarrow> string list \<Rightarrow> string list" where
  "merkle_for hashes i newHashes =
     (if i < length hashes then
        (let left = hashes ! i;
             right = (if i + 1 < length hashes \<and> hashes ! (i + 1) \<noteq> []
                      then hashes ! (i + 1) else left)
         in merkle_for hashes (i + 2) (newHashes @ [sha256 (left @ right)]))
      else newHashes)"
  by pat_completeness auto
termination
  by (relation "measure (\<lambda>(hashes, i, newHashes). length hashes - i)") auto

declare merkle_for.simps [simp del]

function merkle_while :: "string list \<Rightarrow> string list" where
  "merkle_while hashes =
     (if length hashes > 1 then merkle_while (merkle_for hashes 0 []) else hashes)"
  by pat_completeness auto
termination
proof (relation "measure length")
  show "wf (measure length)" by simp
next
  fix hashes :: "string list"
  assume long: "1 < length hashes"
  have len: "length (merkle_for hs i acc) = length acc + (length hs - i + 1) div 2"
    for hs i acc
  proof (induction hs i acc rule: merkle_for.induct)
    case (1 hs i acc)
    show ?case
    proof (cases "i < length hs")
      case True
      have ar: "Suc ((length hs - (i + 2) + 1) div 2) = (length hs - i + 1) div 2"
        using True by arith
      show ?thesis
        using "1.IH" [OF True refl refl] True ar
        by (subst merkle_for.simps) (simp add: Let_def)
    next
      case False
      then show ?thesis by (subst merkle_for.simps) simp
    qed
  qed
  from long show "(merkle_for hashes 0 [], hashes) \<in> measure length"
    by (simp add: len)
qed

declare merkle_while.simps [simp del]

section \<open>The standalone chain class of blockchain.js\<close>

record bc_block =
  bk_number :: int
  bk_timestamp :: string
  bk_previousHash :: string
  bk_merkleRoot :: string
  bk_transactions :: "tx list"
  bk_nonce :: int
  bk_difficulty :: int
  bk_miner :: string
  bk_hash :: string

record bc_state =
  bs_blockHeight :: int
  bs_latestBlockHash :: string
  bs_totalTransactions :: int
  bs_genesisTimestamp :: string
  bs_chainId :: string

text \<open>
  The object: \<open>this.state\<close> in memory, and the files under \<open>dataDir\<close>. A block
  file is named after the block number (padded to 10 digits, never cut), a transaction
  file after the transaction hash; it holds the transaction with the number and the hash
  of its block. \<open>bc_stateFile\<close> is \<open>None\<close> while \<open>state.json\<close> does not exist.
\<close>

record bc_chain =
  bc_dataDir :: string
  bc_state :: bc_state
  bc_blocks :: "int \<rightharpoonup> bc_block"
  bc_txs :: "string \<rightharpoonup> tx \<times> int \<times> string"
  bc_stateFile :: "bc_state option"

definition bc_calculateBlockHash :: "bc_block \<Rightarrow> string" where
  "bc_calculateBlockHash block =
     sha256 (show_int (bk_number block) @ ''|'' @ bk_timestamp block @ ''|''
             @ bk_previousHash block @ ''|'' @ bk_merkleRoot block @ ''|''
             @ show_int (bk_nonce block))"

definition bc_calculateMerkleRoot :: "tx list \<Rightarrow> string" where
  "bc_calculateMerkleRoot transactions =
     (if length transactions = 0 then sha256 ''empty-block''
      else merkle_while (map tx_leaf transactions) ! 0)"

text \<open>\<open>nonce: tx.nonce || 0\<close>: a missing nonce, and the nonce 0, give 0.\<close>

definition bc_calculateTransactionHash :: "tx \<Rightarrow> string" where
  "bc_calculateTransactionHash t =
     sha256 (stringify (JObj
       [(''type'', JStr (tx_type t)), (''data'', tx_data t),
        (''timestamp'', JStr (tx_timestamp t)),
        (''nonce'', JNum (case tx_nonce t of None \<Rightarrow> 0 | Some n \<Rightarrow> if n = 0 then 0 else n))]))"

definition bc_getBlock :: "bc_chain \<Rightarrow> int \<Rightarrow> bc_block option" where
  "bc_getBlock c blockNumber = bc_blocks c blockNumber"

definition bc_getLatestBlock :: "bc_chain \<Rightarrow> bc_block option" where
  "bc_getLatestBlock c = bc_getBlock c (bs_blockHeight (bc_state c))"

text \<open>
  \<open>saveBlock\<close> writes the block file (write 0 of the call), then one file per
  transaction (writes 1, 2, ...). \<open>saveState\<close> is the write number \<open>k\<close> of its call.
\<close>

fun bc_saveTxs :: "fault \<Rightarrow> nat \<Rightarrow> bc_block \<Rightarrow> tx list \<Rightarrow> bc_chain \<Rightarrow> error option \<times> bc_chain" where
  "bc_saveTxs f k block [] c = (None, c)"
| "bc_saveTxs f k block (t # ts) c =
     (if f = Some k then (Some StorageError, c)
      else bc_saveTxs f (Suc k) block ts
             (c\<lparr>bc_txs := (bc_txs c)(tx_hash t \<mapsto> (t, bk_number block, bk_hash block))\<rparr>))"

definition bc_saveBlock :: "fault \<Rightarrow> bc_chain \<Rightarrow> bc_block \<Rightarrow> error option \<times> bc_chain" where
  "bc_saveBlock f c block =
     (if f = Some 0 then (Some StorageError, c)
      else bc_saveTxs f 1 block (bk_transactions block)
             (c\<lparr>bc_blocks := (bc_blocks c)(bk_number block \<mapsto> block)\<rparr>))"

definition bc_saveState :: "fault \<Rightarrow> nat \<Rightarrow> bc_chain \<Rightarrow> error option \<times> bc_chain" where
  "bc_saveState f k c =
     (if f = Some k then (Some StorageError, c)
      else (None, c\<lparr>bc_stateFile := Some (bc_state c)\<rparr>))"

definition genesis_data :: json where
  "genesis_data =
     JObj [(''message'', JStr ''Healthcare DID Genesis Block''),
           (''network'', JStr ''medchain-local''),
           (''version'', JStr ''1.0.0''),
           (''creator'', JStr ''Healthcare DID Research''),
           (''purpose'', JStr ''Healthcare DID Proof of Concept'')]"

definition zero_digest :: string where
  "zero_digest = replicate 64 CHR ''0''"

definition bc_createGenesisBlock :: "bc_chain \<Rightarrow> fault \<Rightarrow> error option \<times> bc_chain" where
  "bc_createGenesisBlock c f =
     (let tx0 = \<lparr>tx_type = ''GENESIS'', tx_data = genesis_data,
                 tx_timestamp = bs_genesisTimestamp (bc_state c), tx_nonce = Some 0,
                 tx_hash = []\<rparr>;
          genesisTransactions = [tx0\<lparr>tx_hash := bc_calculateTransactionHash tx0\<rparr>];
          block0 = \<lparr>bk_number = 0, bk_timestamp = bs_genesisTimestamp (bc_state c),
                    bk_previousHash = zero_digest,
                    bk_merkleRoot = bc_calculateMerkleRoot genesisTransactions,
                    bk_transactions = genesisTransactions, bk_nonce = 0,
                    bk_difficulty = 1, bk_miner = ''genesis'', bk_hash = []\<rparr>;
          genesisBlock = block0\<lparr>bk_hash := bc_calculateBlockHash block0\<rparr>
      in case bc_saveBlock f c genesisBlock of
           (Some err, c1) \<Rightarrow> (Some err, c1)
         | (None, c1) \<Rightarrow>
             bc_saveState f (Suc (length genesisTransactions))
               (c1\<lparr>bc_state := (bc_state c1)
                     \<lparr>bs_latestBlockHash := bk_hash genesisBlock,
                      bs_blockHeight := 0,
                      bs_totalTransactions := 1\<rparr>\<rparr>))"

text \<open>
  The constructor, on the files found under \<open>dataDir\<close>: with a \<open>state.json\<close> the
  state is loaded, without one (the first run) the state is created and the genesis block
  written. \<open>now\<close> is \<open>new Date().toISOString()\<close>. A throw leaves no object.
\<close>

definition bc_initialize ::
  "string \<Rightarrow> (int \<rightharpoonup> bc_block) \<Rightarrow> (string \<rightharpoonup> tx \<times> int \<times> string) \<Rightarrow> bc_state option
     \<Rightarrow> string \<Rightarrow> fault \<Rightarrow> error + bc_chain" where
  "bc_initialize dataDir blockFiles txFiles stateFile now f =
     (case stateFile of
        Some st \<Rightarrow>
          Inr \<lparr>bc_dataDir = dataDir, bc_state = st, bc_blocks = blockFiles,
               bc_txs = txFiles, bc_stateFile = stateFile\<rparr>
      | None \<Rightarrow>
          (case bc_createGenesisBlock
                  \<lparr>bc_dataDir = dataDir,
                   bc_state = \<lparr>bs_blockHeight = 0, bs_latestBlockHash = zero_digest,
                               bs_totalTransactions = 0, bs_genesisTimestamp = now,
                               bs_chainId = ''medchain-local-001''\<rparr>,
                   bc_blocks = blockFiles, bc_txs = txFiles, bc_stateFile = None\<rparr> f of
             (Some err, c) \<Rightarrow> Inl err
           | (None, c) \<Rightarrow> Inr c))"

text \<open>
  \<open>addTransaction(type, data)\<close>; \<open>timestamp\<close> is \<open>new Date().toISOString()\<close> and
  \<open>now\<close> is \<open>Date.now()\<close>. The result is what the call returns or throws, with the
  object as the call leaves it.
\<close>

definition bc_addTransaction ::
  "bc_chain \<Rightarrow> string \<Rightarrow> json \<Rightarrow> string \<Rightarrow> int \<Rightarrow> fault \<Rightarrow> (error + receipt) \<times> bc_chain" where
  "bc_addTransaction c type data timestamp now f =
     (let tx0 = \<lparr>tx_type = type, tx_data = data, tx_timestamp = timestamp,
                 tx_nonce = Some now, tx_hash = []\<rparr>;
          transaction = tx0\<lparr>tx_hash := bc_calculateTransactionHash tx0\<rparr>
      in case bc_getLatestBlock c of
           None \<Rightarrow> (Inl TypeError, c)
         | Some latestBlock \<Rightarrow>
             (let block0 = \<lparr>bk_number = bk_number latestBlock + 1, bk_timestamp = timestamp,
                             bk_previousHash = bk_hash latestBlock, bk_merkleRoot = [],
                             bk_transactions = [transaction], bk_nonce = 0,
                             bk_difficulty = 1, bk_miner = ''local-node'', bk_hash = []\<rparr>;
                  block1 = block0\<lparr>bk_merkleRoot :=
                             bc_calculateMerkleRoot (bk_transactions block0)\<rparr>;
                  newBlock = block1\<lparr>bk_hash := bc_calculateBlockHash block1\<rparr>
              in case bc_saveBlock f c newBlock of
                   (Some err, c1) \<Rightarrow> (Inl err, c1)
                 | (None, c1) \<Rightarrow>
                     (case bc_saveState f (Suc (length (bk_transactions newBlock)))
                             (c1\<lparr>bc_state := (bc_state c1)
                                   \<lparr>bs_blockHeight := bk_number newBlock,
                                    bs_latestBlockHash := bk_hash newBlock,
                                    bs_totalTransactions :=
                                      bs_totalTransactions (bc_state c1) + 1\<rparr>\<rparr>) of
                        (Some err, c2) \<Rightarrow> (Inl err, c2)
                      | (None, c2) \<Rightarrow>
                          (Inr \<lparr>r_txHash = tx_hash transaction,
                                r_blockNumber = bk_number newBlock,
                                r_blockHash = bk_hash newBlock,
                                r_timestamp = timestamp\<rparr>, c2))))"

text \<open>
  \<open>validateChain\<close>. \<open>bc_validateBlock c i\<close> is what one turn of the loop pushes on
  \<open>errors\<close>: the single entry of a missing block file (the turn ends there, by
  \<open>continue\<close>), otherwise the entries of the hash, the Merkle root and the link, in
  this order. The link is compared only when \<open>i > 0\<close> and the previous block file
  exists.
\<close>

record verr =
  ve_block :: int
  ve_error :: string
  ve_expected :: "string option"
  ve_actual :: "string option"

record bc_validation =
  bv_valid :: bool
  bv_blocksVerified :: int
  bv_errors :: "verr list"

definition bc_validateBlock :: "bc_chain \<Rightarrow> int \<Rightarrow> verr list" where
  "bc_validateBlock c i =
     (case bc_getBlock c i of
        None \<Rightarrow>
          [\<lparr>ve_block = i, ve_error = ''Block file missing'',
            ve_expected = None, ve_actual = None\<rparr>]
      | Some block \<Rightarrow>
          (let calculatedHash = bc_calculateBlockHash block;
               calculatedMerkle = bc_calculateMerkleRoot (bk_transactions block)
           in (if calculatedHash \<noteq> bk_hash block
               then [\<lparr>ve_block = i, ve_error = ''Hash mismatch - block may be tampered'',
                      ve_expected = Some calculatedHash, ve_actual = Some (bk_hash block)\<rparr>]
               else [])
            @ (if calculatedMerkle \<noteq> bk_merkleRoot block
               then [\<lparr>ve_block = i,
                      ve_error = ''Merkle root mismatch - transactions may be tampered'',
                      ve_expected = None, ve_actual = None\<rparr>]
               else [])
            @ (if i > 0 then
                 (case bc_getBlock c (i - 1) of
                    None \<Rightarrow> []
                  | Some prevBlock \<Rightarrow>
                      if bk_previousHash block \<noteq> bk_hash prevBlock
                      then [\<lparr>ve_block = i,
                             ve_error = ''Chain broken - previousHash does not match'',
                             ve_expected = None, ve_actual = None\<rparr>]
                      else [])
               else [])))"

function bc_validateLoop :: "bc_chain \<Rightarrow> int \<Rightarrow> verr list \<Rightarrow> verr list" where
  "bc_validateLoop c i errors =
     (if i \<le> bs_blockHeight (bc_state c)
      then bc_validateLoop c (i + 1) (errors @ bc_validateBlock c i)
      else errors)"
  by pat_completeness auto
termination
  by (relation "measure (\<lambda>(c, i, errors). nat (bs_blockHeight (bc_state c) + 1 - i))") auto

declare bc_validateLoop.simps [simp del]

definition bc_validateChain :: "bc_chain \<Rightarrow> bc_validation" where
  "bc_validateChain c =
     (let errors = bc_validateLoop c 0 []
      in \<lparr>bv_valid = (length errors = 0),
          bv_blocksVerified = bs_blockHeight (bc_state c) + 1,
          bv_errors = errors\<rparr>)"

record bc_stats =
  st_chainId :: string
  st_blockHeight :: int
  st_totalBlocks :: int
  st_totalTransactions :: int
  st_latestBlockHash :: string
  st_genesisTimestamp :: string
  st_dataDirectory :: string

definition bc_getStats :: "bc_chain \<Rightarrow> bc_stats" where
  "bc_getStats c =
     \<lparr>st_chainId = bs_chainId (bc_state c),
      st_blockHeight = bs_blockHeight (bc_state c),
      st_totalBlocks = bs_blockHeight (bc_state c) + 1,
      st_totalTransactions = bs_totalTransactions (bc_state c),
      st_latestBlockHash = bs_latestBlockHash (bc_state c),
      st_genesisTimestamp = bs_genesisTimestamp (bc_state c),
      st_dataDirectory = bc_dataDir c\<rparr>"

section \<open>The chain class inlined in server.js\<close>

record srv_block =
  sb_number :: int
  sb_timestamp :: string
  sb_prevHash :: string
  sb_transactions :: "tx list"
  sb_nonce :: int
  sb_merkleRoot :: string
  sb_hash :: string

record srv_state =
  ss_blockHeight :: int
  ss_latestHash :: string
  ss_totalTx :: int
  ss_chainId :: string
  ss_genesis :: string

text \<open>A transaction file holds the transaction with the number of its block.\<close>

record srv_chain =
  sv_dataDir :: string
  sv_state :: srv_state
  sv_blocks :: "int \<rightharpoonup> srv_block"
  sv_txs :: "string \<rightharpoonup> tx \<times> int"
  sv_stateFile :: "srv_state option"

definition srv_calculateBlockHash :: "srv_block \<Rightarrow> string" where
  "srv_calculateBlockHash block =
     sha256 (show_int (sb_number block) @ ''|'' @ sb_timestamp block @ ''|''
             @ sb_prevHash block @ ''|'' @ sb_merkleRoot block @ ''|''
             @ show_int (sb_nonce block))"

definition srv_calculateMerkleRoot :: "tx list \<Rightarrow> string" where
  "srv_calculateMerkleRoot txs =
     (if length txs = 0 then sha256 ''empty''
      else merkle_while (map tx_leaf txs) ! 0)"

definition srv_getBlock :: "srv_chain \<Rightarrow> int \<Rightarrow> srv_block option" where
  "srv_getBlock c num = sv_blocks c num"

definition srv_getLatestBlock :: "srv_chain \<Rightarrow> srv_block option" where
  "srv_getLatestBlock c = srv_getBlock c (ss_blockHeight (sv_state c))"

fun srv_saveTxs :: "fault \<Rightarrow> nat \<Rightarrow> srv_block \<Rightarrow> tx list \<Rightarrow> srv_chain \<Rightarrow> error option \<times> srv_chain" where
  "srv_saveTxs f k block [] c = (None, c)"
| "srv_saveTxs f k block (t # ts) c =
     (if f = Some k then (Some StorageError, c)
      else srv_saveTxs f (Suc k) block ts
             (c\<lparr>sv_txs := (sv_txs c)(tx_hash t \<mapsto> (t, sb_number block))\<rparr>))"

definition srv_saveBlock :: "fault \<Rightarrow> srv_chain \<Rightarrow> srv_block \<Rightarrow> error option \<times> srv_chain" where
  "srv_saveBlock f c block =
     (if f = Some 0 then (Some StorageError, c)
      else srv_saveTxs f 1 block (sb_transactions block)
             (c\<lparr>sv_blocks := (sv_blocks c)(sb_number block \<mapsto> block)\<rparr>))"

definition srv_saveState :: "fault \<Rightarrow> nat \<Rightarrow> srv_chain \<Rightarrow> error option \<times> srv_chain" where
  "srv_saveState f k c =
     (if f = Some k then (Some StorageError, c)
      else (None, c\<lparr>sv_stateFile := Some (sv_state c)\<rparr>))"

text \<open>
  \<open>createGenesisBlock\<close>; \<open>now\<close> is the \<open>Date.now()\<close> of the transaction hash
  \<open>sha256('genesis-' + Date.now())\<close>. The transaction has no nonce.
\<close>

definition srv_createGenesisBlock :: "srv_chain \<Rightarrow> int \<Rightarrow> fault \<Rightarrow> error option \<times> srv_chain" where
  "srv_createGenesisBlock c now f =
     (let t = \<lparr>tx_type = ''GENESIS'',
               tx_data = JObj [(''message'', JStr ''MedChain Indonesia Genesis''),
                               (''version'', JStr ''1.0.0'')],
               tx_timestamp = ss_genesis (sv_state c), tx_nonce = None,
               tx_hash = sha256 (''genesis-'' @ show_int now)\<rparr>;
          block0 = \<lparr>sb_number = 0, sb_timestamp = ss_genesis (sv_state c),
                    sb_prevHash = zero_digest, sb_transactions = [t], sb_nonce = 0,
                    sb_merkleRoot = [], sb_hash = []\<rparr>;
          block1 = block0\<lparr>sb_merkleRoot := srv_calculateMerkleRoot (sb_transactions block0)\<rparr>;
          block = block1\<lparr>sb_hash := srv_calculateBlockHash block1\<rparr>
      in case srv_saveBlock f c block of
           (Some err, c1) \<Rightarrow> (Some err, c1)
         | (None, c1) \<Rightarrow>
             srv_saveState f (Suc (length (sb_transactions block)))
               (c1\<lparr>sv_state := (sv_state c1)
                     \<lparr>ss_blockHeight := 0,
                      ss_latestHash := sb_hash block,
                      ss_totalTx := 1\<rparr>\<rparr>))"

text \<open>
  The constructor; \<open>isoNow\<close> is \<open>new Date().toISOString()\<close>, \<open>now\<close> the
  \<open>Date.now()\<close> of the genesis transaction. The state starts at height \<open>-1\<close>.
\<close>

definition srv_new ::
  "string \<Rightarrow> (int \<rightharpoonup> srv_block) \<Rightarrow> (string \<rightharpoonup> tx \<times> int) \<Rightarrow> srv_state option
     \<Rightarrow> string \<Rightarrow> int \<Rightarrow> fault \<Rightarrow> error + srv_chain" where
  "srv_new dataDir blockFiles txFiles stateFile isoNow now f =
     (case stateFile of
        Some st \<Rightarrow>
          Inr \<lparr>sv_dataDir = dataDir, sv_state = st, sv_blocks = blockFiles,
               sv_txs = txFiles, sv_stateFile = stateFile\<rparr>
      | None \<Rightarrow>
          (case srv_createGenesisBlock
                  \<lparr>sv_dataDir = dataDir,
                   sv_state = \<lparr>ss_blockHeight = - 1, ss_latestHash = zero_digest,
                               ss_totalTx = 0, ss_chainId = ''medchain-local-001'',
                               ss_genesis = isoNow\<rparr>,
                   sv_blocks = blockFiles, sv_txs = txFiles, sv_stateFile = None\<rparr> now f of
             (Some err, c) \<Rightarrow> Inl err
           | (None, c) \<Rightarrow> Inr c))"

text \<open>
  \<open>addTransaction(type, data)\<close>. The object literal of the transaction calls
  \<open>Date.now()\<close> twice: \<open>now1\<close> is the reading stored as \<open>nonce\<close>, \<open>now2\<close> the later
  reading inside the hashed object.
\<close>

definition srv_addTransaction ::
  "srv_chain \<Rightarrow> string \<Rightarrow> json \<Rightarrow> string \<Rightarrow> int \<Rightarrow> int \<Rightarrow> fault
     \<Rightarrow> (error + receipt) \<times> srv_chain" where
  "srv_addTransaction c type data timestamp now1 now2 f =
     (let t = \<lparr>tx_type = type, tx_data = data, tx_timestamp = timestamp,
               tx_nonce = Some now1,
               tx_hash = sha256 (stringify (JObj
                 [(''type'', JStr type), (''data'', data),
                  (''timestamp'', JStr timestamp), (''nonce'', JNum now2)]))\<rparr>
      in case srv_getLatestBlock c of
           None \<Rightarrow> (Inl TypeError, c)
         | Some prev \<Rightarrow>
             (let block0 = \<lparr>sb_number = sb_number prev + 1, sb_timestamp = timestamp,
                             sb_prevHash = sb_hash prev, sb_transactions = [t],
                             sb_nonce = 0, sb_merkleRoot = [], sb_hash = []\<rparr>;
                  block1 = block0\<lparr>sb_merkleRoot :=
                             srv_calculateMerkleRoot (sb_transactions block0)\<rparr>;
                  block = block1\<lparr>sb_hash := srv_calculateBlockHash block1\<rparr>
              in case srv_saveBlock f c block of
                   (Some err, c1) \<Rightarrow> (Inl err, c1)
                 | (None, c1) \<Rightarrow>
                     (case srv_saveState f (Suc (length (sb_transactions block)))
                             (c1\<lparr>sv_state := (sv_state c1)
                                   \<lparr>ss_blockHeight := sb_number block,
                                    ss_latestHash := sb_hash block,
                                    ss_totalTx := ss_totalTx (sv_state c1) + 1\<rparr>\<rparr>) of
                        (Some err, c2) \<Rightarrow> (Inl err, c2)
                      | (None, c2) \<Rightarrow>
                          (Inr \<lparr>r_txHash = tx_hash t,
                                r_blockNumber = sb_number block,
                                r_blockHash = sb_hash block,
                                r_timestamp = timestamp\<rparr>, c2))))"

text \<open>
  \<open>validateChain\<close> returns from inside its loop; the object returned has either
  \<open>valid\<close> and \<open>error\<close>, or \<open>valid\<close> and \<open>blocksVerified\<close>.
  \<open>srv_checkBlock c i\<close> is the message of the first \<open>return\<close> taken in turn \<open>i\<close>.
\<close>

record srv_validation =
  vl_valid :: bool
  vl_blocksVerified :: "int option"
  vl_error :: "string option"

definition srv_checkBlock :: "srv_chain \<Rightarrow> int \<Rightarrow> string option" where
  "srv_checkBlock c i =
     (case (srv_getBlock c i, srv_getBlock c (i - 1)) of
        (Some currBlock, Some prevBlock) \<Rightarrow>
          if sb_prevHash currBlock \<noteq> sb_hash prevBlock then Some (''Chain broken at '' @ show_int i)
          else if srv_calculateBlockHash currBlock \<noteq> sb_hash currBlock
               then Some (''Tampered block '' @ show_int i)
          else None
      | _ \<Rightarrow> Some (''Missing block '' @ show_int i))"

function srv_validateLoop :: "srv_chain \<Rightarrow> int \<Rightarrow> srv_validation" where
  "srv_validateLoop c i =
     (if i \<le> ss_blockHeight (sv_state c) then
        (case srv_checkBlock c i of
           Some msg \<Rightarrow> \<lparr>vl_valid = False, vl_blocksVerified = None, vl_error = Some msg\<rparr>
         | None \<Rightarrow> srv_validateLoop c (i + 1))
      else \<lparr>vl_valid = True,
            vl_blocksVerified = Some (ss_blockHeight (sv_state c) + 1),
            vl_error = None\<rparr>)"
  by pat_completeness auto
termination
  by (relation "measure (\<lambda>(c, i). nat (ss_blockHeight (sv_state c) + 1 - i))") auto

declare srv_validateLoop.simps [simp del]

definition srv_validateChain :: "srv_chain \<Rightarrow> srv_validation" where
  "srv_validateChain c = srv_validateLoop c 1"

text \<open>\<open>getStats\<close> spreads the object of \<open>validateChain\<close> into its result.\<close>

record srv_stats =
  sst_chainId :: string
  sst_totalBlocks :: int
  sst_totalTransactions :: int
  sst_latestBlockHash :: string
  sst_valid :: bool
  sst_blocksVerified :: "int option"
  sst_error :: "string option"

definition srv_getStats :: "srv_chain \<Rightarrow> srv_stats" where
  "srv_getStats c =
     (let validation = srv_validateChain c
      in \<lparr>sst_chainId = ss_chainId (sv_state c),
          sst_totalBlocks = ss_blockHeight (sv_state c) + 1,
          sst_totalTransactions = ss_totalTx (sv_state c),
          sst_latestBlockHash = ss_latestHash (sv_state c),
          sst_valid = vl_valid validation,
          sst_blocksVerified = vl_blocksVerified validation,
          sst_error = vl_error validation\<rparr>)"

section \<open>The Merkle Accumulator as the specification words it\<close>

text \<open>
  One level: the digests are paired from the left and each pair hashed as
  \<open>Hasher(left || right)\<close>; a last digest without a partner is paired with itself.
  The levels are repeated until at most one digest remains.
\<close>

fun pair_level :: "string list \<Rightarrow> string list" where
  "pair_level [] = []"
| "pair_level [d] = [sha256 (d @ d)]"
| "pair_level (l # r # ds) = sha256 (l @ r) # pair_level ds"

function reduce_levels :: "string list \<Rightarrow> string list" where
  "reduce_levels ds = (if length ds \<le> 1 then ds else reduce_levels (pair_level ds))"
  by pat_completeness auto
termination
proof (relation "measure length")
  show "wf (measure length)" by simp
next
  fix ds :: "string list"
  assume long: "\<not> length ds \<le> 1"
  have len: "length (pair_level xs) = (length xs + 1) div 2" for xs
    by (induction xs rule: pair_level.induct) simp_all
  from long show "(pair_level ds, ds) \<in> measure length"
    by (simp add: len)
qed

declare reduce_levels.simps [simp del]

section \<open>Sequences of calls\<close>

text \<open>
  One call of \<open>addTransaction\<close> with what it reads from its environment: the two
  arguments, the clock (\<open>c_now2\<close> is the second \<open>Date.now()\<close> of
  \<^verbatim>\<open>server.js\<close>, not read by \<^verbatim>\<open>blockchain.js\<close>) and the fault of its writes.
  \<open>bc_run\<close> and \<open>srv_run\<close> make the calls one after the other on the same object,
  whether a call throws or not, and collect the results.
\<close>

record call =
  c_type :: string
  c_data :: json
  c_timestamp :: string
  c_now :: int
  c_now2 :: int
  c_fault :: fault

definition bc_call :: "bc_chain \<Rightarrow> call \<Rightarrow> (error + receipt) \<times> bc_chain" where
  "bc_call c x =
     bc_addTransaction c (c_type x) (c_data x) (c_timestamp x) (c_now x) (c_fault x)"

fun bc_run :: "bc_chain \<Rightarrow> call list \<Rightarrow> (error + receipt) list \<times> bc_chain" where
  "bc_run c [] = ([], c)"
| "bc_run c (x # xs) =
     (case bc_call c x of
        (r, c1) \<Rightarrow> (case bc_run c1 xs of (rs, c2) \<Rightarrow> (r # rs, c2)))"

definition srv_call :: "srv_chain \<Rightarrow> call \<Rightarrow> (error + receipt) \<times> srv_chain" where
  "srv_call c x =
     srv_addTransaction c (c_type x) (c_data x) (c_timestamp x) (c_now x) (c_now2 x) (c_fault x)"

fun srv_run :: "srv_chain \<Rightarrow> call list \<Rightarrow> (error + receipt) list \<times> srv_chain" where
  "srv_run c [] = ([], c)"
| "srv_run c (x # xs) =
     (case srv_call c x of
        (r, c1) \<Rightarrow> (case srv_run c1 xs of (rs, c2) \<Rightarrow> (r # rs, c2)))"

text \<open>
  The engine keeps its head state in memory and its blocks on disk, and the constructor
  of either class loads \<open>state.json\<close> when it exists. A history of a data directory is a
  sequence of steps: \<open>Append\<close> is one call of \<open>addTransaction\<close> on the current object;
  \<open>Restart\<close> drops the object and constructs a new one on the same directory, with the
  clock readings and the fault of that constructor call. \<open>bc_steps\<close> and \<open>srv_steps\<close>
  run a history; a throwing constructor ends it with the error.
\<close>

datatype step = Append call | Restart string int fault

fun bc_steps :: "bc_chain \<Rightarrow> step list \<Rightarrow> error + bc_chain" where
  "bc_steps c [] = Inr c"
| "bc_steps c (Append x # xs) = bc_steps (snd (bc_call c x)) xs"
| "bc_steps c (Restart isoNow now f # xs) =
     (case bc_initialize (bc_dataDir c) (bc_blocks c) (bc_txs c) (bc_stateFile c) isoNow f of
        Inl err \<Rightarrow> Inl err
      | Inr c' \<Rightarrow> bc_steps c' xs)"

fun srv_steps :: "srv_chain \<Rightarrow> step list \<Rightarrow> error + srv_chain" where
  "srv_steps c [] = Inr c"
| "srv_steps c (Append x # xs) = srv_steps (snd (srv_call c x)) xs"
| "srv_steps c (Restart isoNow now f # xs) =
     (case srv_new (sv_dataDir c) (sv_blocks c) (sv_txs c) (sv_stateFile c) isoNow now f of
        Inl err \<Rightarrow> Inl err
      | Inr c' \<Rightarrow> srv_steps c' xs)"

section \<open>The validation report as the specification words it\<close>

text \<open>
  The four checks of a block: (a) the block is retrievable, (b) the recomputed block hash
  equals the stored hash, (c) the recomputed Merkle root equals the stored Merkle root,
  (d) for a block after the genesis block whose prior block is retrievable, the stored
  previous hash equals the stored hash of the prior block. A \<open>block_view\<close> holds what
  the checks read of a stored block; \<open>audit blocks h\<close> is the full ordered report of the
  blocks \<open>0\<close> to \<open>h\<close>, one entry per failed check.
\<close>

datatype check = Retrievable | HashMatches | MerkleMatches | LinkMatches

record block_view =
  stored_hash :: string
  recomputed_hash :: string
  stored_merkleRoot :: string
  recomputed_merkleRoot :: string
  stored_previousHash :: string

definition failed_checks :: "(int \<Rightarrow> block_view option) \<Rightarrow> int \<Rightarrow> check list" where
  "failed_checks blocks i =
     (case blocks i of
        None \<Rightarrow> [Retrievable]
      | Some b \<Rightarrow>
          (if recomputed_hash b = stored_hash b then [] else [HashMatches])
          @ (if recomputed_merkleRoot b = stored_merkleRoot b then [] else [MerkleMatches])
          @ (if i > 0 then
               (case blocks (i - 1) of
                  None \<Rightarrow> []
                | Some p \<Rightarrow> if stored_previousHash b = stored_hash p then [] else [LinkMatches])
             else []))"

definition audit :: "(int \<Rightarrow> block_view option) \<Rightarrow> int \<Rightarrow> (int \<times> check) list" where
  "audit blocks h = concat (map (\<lambda>i. map (Pair i) (failed_checks blocks i)) [0..h])"

definition bc_view :: "bc_chain \<Rightarrow> int \<Rightarrow> block_view option" where
  "bc_view c i =
     map_option
       (\<lambda>b. \<lparr>stored_hash = bk_hash b, recomputed_hash = bc_calculateBlockHash b,
             stored_merkleRoot = bk_merkleRoot b,
             recomputed_merkleRoot = bc_calculateMerkleRoot (bk_transactions b),
             stored_previousHash = bk_previousHash b\<rparr>)
       (bc_getBlock c i)"

definition srv_view :: "srv_chain \<Rightarrow> int \<Rightarrow> block_view option" where
  "srv_view c i =
     map_option
       (\<lambda>b. \<lparr>stored_hash = sb_hash b, recomputed_hash = srv_calculateBlockHash b,
             stored_merkleRoot = sb_merkleRoot b,
             recomputed_merkleRoot = srv_calculateMerkleRoot (sb_transactions b),
             stored_previousHash = sb_prevHash b\<rparr>)
       (srv_getBlock c i)"

text \<open>The check an error entry of \<^verbatim>\<open>blockchain.js\<close> reports, read off its message.\<close>

definition verr_check :: "verr \<Rightarrow> check" where
  "verr_check e =
     (if ve_error e = ''Block file missing'' then Retrievable
      else if ve_error e = ''Hash mismatch - block may be tampered'' then HashMatches
      else if ve_error e = ''Merkle root mismatch - transactions may be tampered''
           then MerkleMatches
      else LinkMatches)"

section \<open>What the engine builds, and the invariant of its chains\<close>

text \<open>
  \<open>bc_genesisBlock\<close> and \<open>bc_newBlock\<close> are the blocks that \<open>createGenesisBlock\<close> and
  \<open>addTransaction\<close> of \<^verbatim>\<open>blockchain.js\<close> build and pass to \<open>saveBlock\<close>;
  \<open>srv_genesisBlock\<close> and \<open>srv_newBlock\<close> are those of \<^verbatim>\<open>server.js\<close>. The invariant
  of a chain with head height \<open>h\<close>: the block files \<open>0\<close> to \<open>h\<close> exist, no block file
  lies beyond \<open>h + 1\<close>, every block file holds a block of its own number whose hash and
  Merkle root are the recomputed ones, and every block after the first names the stored
  hash of the block before it. In \<^verbatim>\<open>blockchain.js\<close> every stored transaction also has
  a nonce and the hash that \<open>calculateTransactionHash\<close> gives it. A chain is tight when
  no block file lies beyond \<open>h\<close>.
\<close>

definition bc_genesisBlock :: "string \<Rightarrow> bc_block" where
  "bc_genesisBlock ts =
     (let tx0 = \<lparr>tx_type = ''GENESIS'', tx_data = genesis_data, tx_timestamp = ts,
                 tx_nonce = Some 0, tx_hash = []\<rparr>;
          genesisTransactions = [tx0\<lparr>tx_hash := bc_calculateTransactionHash tx0\<rparr>];
          block0 = \<lparr>bk_number = 0, bk_timestamp = ts, bk_previousHash = zero_digest,
                    bk_merkleRoot = bc_calculateMerkleRoot genesisTransactions,
                    bk_transactions = genesisTransactions, bk_nonce = 0,
                    bk_difficulty = 1, bk_miner = ''genesis'', bk_hash = []\<rparr>
      in block0\<lparr>bk_hash := bc_calculateBlockHash block0\<rparr>)"

definition bc_newBlock :: "bc_block \<Rightarrow> string \<Rightarrow> json \<Rightarrow> string \<Rightarrow> int \<Rightarrow> bc_block" where
  "bc_newBlock latestBlock type data timestamp now =
     (let tx0 = \<lparr>tx_type = type, tx_data = data, tx_timestamp = timestamp,
                 tx_nonce = Some now, tx_hash = []\<rparr>;
          transaction = tx0\<lparr>tx_hash := bc_calculateTransactionHash tx0\<rparr>;
          block0 = \<lparr>bk_number = bk_number latestBlock + 1, bk_timestamp = timestamp,
                    bk_previousHash = bk_hash latestBlock, bk_merkleRoot = [],
                    bk_transactions = [transaction], bk_nonce = 0,
                    bk_difficulty = 1, bk_miner = ''local-node'', bk_hash = []\<rparr>;
          block1 = block0\<lparr>bk_merkleRoot := bc_calculateMerkleRoot (bk_transactions block0)\<rparr>
      in block1\<lparr>bk_hash := bc_calculateBlockHash block1\<rparr>)"

definition bc_block_ok :: "bc_block \<Rightarrow> bool" where
  "bc_block_ok b \<longleftrightarrow>
     bk_hash b = bc_calculateBlockHash b
   \<and> bk_merkleRoot b = bc_calculateMerkleRoot (bk_transactions b)
   \<and> list_all (\<lambda>t. tx_nonce t \<noteq> None \<and> tx_hash t = bc_calculateTransactionHash t)
         (bk_transactions b)"

definition bc_inv :: "bc_chain \<Rightarrow> bool" where
  "bc_inv c \<longleftrightarrow>
     0 \<le> bs_blockHeight (bc_state c)
   \<and> (\<forall>k. bc_blocks c k \<noteq> None \<longrightarrow> 0 \<le> k \<and> k \<le> bs_blockHeight (bc_state c) + 1)
   \<and> (\<forall>k. 0 \<le> k \<and> k \<le> bs_blockHeight (bc_state c) \<longrightarrow> bc_blocks c k \<noteq> None)
   \<and> (\<forall>k b. bc_blocks c k = Some b \<longrightarrow>
          bk_number b = k \<and> bc_block_ok b
        \<and> (0 < k \<longrightarrow> (\<exists>p. bc_blocks c (k - 1) = Some p \<and> bk_previousHash b = bk_hash p)))"

definition bc_tight :: "bc_chain \<Rightarrow> bool" where
  "bc_tight c \<longleftrightarrow> (\<forall>k. bc_blocks c k \<noteq> None \<longrightarrow> k \<le> bs_blockHeight (bc_state c))"

definition srv_genesisBlock :: "string \<Rightarrow> int \<Rightarrow> srv_block" where
  "srv_genesisBlock isoNow now =
     (let t = \<lparr>tx_type = ''GENESIS'',
               tx_data = JObj [(''message'', JStr ''MedChain Indonesia Genesis''),
                               (''version'', JStr ''1.0.0'')],
               tx_timestamp = isoNow, tx_nonce = None,
               tx_hash = sha256 (''genesis-'' @ show_int now)\<rparr>;
          block0 = \<lparr>sb_number = 0, sb_timestamp = isoNow,
                    sb_prevHash = zero_digest, sb_transactions = [t], sb_nonce = 0,
                    sb_merkleRoot = [], sb_hash = []\<rparr>;
          block1 = block0\<lparr>sb_merkleRoot := srv_calculateMerkleRoot (sb_transactions block0)\<rparr>
      in block1\<lparr>sb_hash := srv_calculateBlockHash block1\<rparr>)"

definition srv_newBlock ::
  "srv_block \<Rightarrow> string \<Rightarrow> json \<Rightarrow> string \<Rightarrow> int \<Rightarrow> int \<Rightarrow> srv_block" where
  "srv_newBlock prev type data timestamp now1 now2 =
     (let t = \<lparr>tx_type = type, tx_data = data, tx_timestamp = timestamp,
               tx_nonce = Some now1,
               tx_hash = sha256 (stringify (JObj
                 [(''type'', JStr type), (''data'', data),
                  (''timestamp'', JStr timestamp), (''nonce'', JNum now2)]))\<rparr>;
          block0 = \<lparr>sb_number = sb_number prev + 1, sb_timestamp = timestamp,
                    sb_prevHash = sb_hash prev, sb_transactions = [t],
                    sb_nonce = 0, sb_merkleRoot = [], sb_hash = []\<rparr>;
          block1 = block0\<lparr>sb_merkleRoot := srv_calculateMerkleRoot (sb_transactions block0)\<rparr>
      in block1\<lparr>sb_hash := srv_calculateBlockHash block1\<rparr>)"

definition srv_block_ok :: "srv_block \<Rightarrow> bool" where
  "srv_block_ok b \<longleftrightarrow>
     sb_hash b = srv_calculateBlockHash b
   \<and> sb_merkleRoot b = srv_calculateMerkleRoot (sb_transactions b)"

definition srv_inv :: "srv_chain \<Rightarrow> bool" where
  "srv_inv c \<longleftrightarrow>
     0 \<le> ss_blockHeight (sv_state c)
   \<and> (\<forall>k. sv_blocks c k \<noteq> None \<longrightarrow> 0 \<le> k \<and> k \<le> ss_blockHeight (sv_state c) + 1)
   \<and> (\<forall>k. 0 \<le> k \<and> k \<le> ss_blockHeight (sv_state c) \<longrightarrow> sv_blocks c k \<noteq> None)
   \<and> (\<forall>k b. sv_blocks c k = Some b \<longrightarrow>
          sb_number b = k \<and> srv_block_ok b
        \<and> (0 < k \<longrightarrow> (\<exists>p. sv_blocks c (k - 1) = Some p \<and> sb_prevHash b = sb_hash p)))"

definition srv_tight :: "srv_chain \<Rightarrow> bool" where
  "srv_tight c \<longleftrightarrow> (\<forall>k. sv_blocks c k \<noteq> None \<longrightarrow> k \<le> ss_blockHeight (sv_state c))"

text \<open>
  Across restarts a weaker invariant holds. \<open>state.json\<close> may lag behind the head state
  in memory, when its write has thrown, so a restart can move the head back and leave
  block files beyond it. What is kept: the block files \<open>0\<close> to \<open>h\<close> exist, every
  block file holds a block of its own number whose hash and Merkle root are the
  recomputed ones, every block numbered \<open>1\<close> to \<open>h\<close> names the stored hash of the block
  before it, and \<open>state.json\<close> exists with a height between \<open>0\<close> and \<open>h\<close>.
\<close>

definition bc_sound :: "bc_chain \<Rightarrow> bool" where
  "bc_sound c \<longleftrightarrow>
     0 \<le> bs_blockHeight (bc_state c)
   \<and> (\<forall>k. 0 \<le> k \<and> k \<le> bs_blockHeight (bc_state c) \<longrightarrow> bc_blocks c k \<noteq> None)
   \<and> (\<forall>k b. bc_blocks c k = Some b \<longrightarrow>
          bk_number b = k \<and> bc_block_ok b
        \<and> (0 < k \<and> k \<le> bs_blockHeight (bc_state c) \<longrightarrow>
             (\<exists>p. bc_blocks c (k - 1) = Some p \<and> bk_previousHash b = bk_hash p)))
   \<and> (\<exists>st. bc_stateFile c = Some st \<and> 0 \<le> bs_blockHeight st
          \<and> bs_blockHeight st \<le> bs_blockHeight (bc_state c))"

definition srv_sound :: "srv_chain \<Rightarrow> bool" where
  "srv_sound c \<longleftrightarrow>
     0 \<le> ss_blockHeight (sv_state c)
   \<and> (\<forall>k. 0 \<le> k \<and> k \<le> ss_blockHeight (sv_state c) \<longrightarrow> sv_blocks c k \<noteq> None)
   \<and> (\<forall>k b. sv_blocks c k = Some b \<longrightarrow>
          sb_number b = k \<and> srv_block_ok b
        \<and> (0 < k \<and> k \<le> ss_blockHeight (sv_state c) \<longrightarrow>
             (\<exists>p. sv_blocks c (k - 1) = Some p \<and> sb_prevHash b = sb_hash p)))
   \<and> (\<exists>st. sv_stateFile c = Some st \<and> 0 \<le> ss_blockHeight st
          \<and> ss_blockHeight st \<le> ss_blockHeight (sv_state c))"

section \<open>Sample inputs\<close>

definition tx_a :: tx where
  "tx_a = \<lparr>tx_type = ''DID_REGISTRATION'', tx_data = JObj [(''nik'', JStr ''123'')],
           tx_timestamp = ''2024-01-01T00:00:00.000Z'', tx_nonce = Some 1704067200000,
           tx_hash = ''aa''\<rparr>"

definition tx_b :: tx where
  "tx_b = \<lparr>tx_type = ''CONSENT_GRANTED'', tx_data = JObj [(''consentId'', JStr ''C1'')],
           tx_timestamp = ''2024-01-01T00:00:01.000Z'', tx_nonce = Some 1704067201000,
           tx_hash = ''bb''\<rparr>"

definition tx_c :: tx where
  "tx_c = \<lparr>tx_type = ''CONSENT_REVOKED'', tx_data = JObj [(''consentId'', JStr ''C1'')],
           tx_timestamp = ''2024-01-01T00:00:02.000Z'', tx_nonce = Some 1704067202000,
           tx_hash = ''cc''\<rparr>"

definition call_a :: call where
  "call_a = \<lparr>c_type = ''DID_REGISTRATION'', c_data = JObj [(''nik'', JStr ''123'')],
             c_timestamp = ''2024-01-01T00:00:01.000Z'', c_now = 1704067201000,
             c_now2 = 1704067201000, c_fault = None\<rparr>"

definition call_b :: call where
  "call_b = \<lparr>c_type = ''CONSENT_GRANTED'', c_data = JObj [(''consentId'', JStr ''C1'')],
             c_timestamp = ''2024-01-01T00:00:02.000Z'', c_now = 1704067202000,
             c_now2 = 1704067202000, c_fault = None\<rparr>"

definition call_c :: call where
  "call_c = \<lparr>c_type = ''CONSENT_REVOKED'', c_data = JObj [(''consentId'', JStr ''C1'')],
             c_timestamp = ''2024-01-01T00:00:03.000Z'', c_now = 1704067203000,
             c_now2 = 1704067203000, c_fault = None\<rparr>"

text \<open>A chain whose \<open>state.json\<close> says height 0 and whose block files are gone.\<close>

definition bc_lost :: bc_chain where
  "bc_lost =
     \<lparr>bc_dataDir = ''./blockchain-data'',
      bc_state = \<lparr>bs_blockHeight = 0, bs_latestBlockHash = zero_digest,
                  bs_totalTransactions = 1,
                  bs_genesisTimestamp = ''2024-01-01T00:00:00.000Z'',
                  bs_chainId = ''medchain-local-001''\<rparr>,
      bc_blocks = Map.empty, bc_txs = Map.empty,
      bc_stateFile = Some \<lparr>bs_blockHeight = 0, bs_latestBlockHash = zero_digest,
                            bs_totalTransactions = 1,
                            bs_genesisTimestamp = ''2024-01-01T00:00:00.000Z'',
                            bs_chainId = ''medchain-local-001''\<rparr>\<rparr>"

definition srv_lost :: srv_chain where
  "srv_lost =
     \<lparr>sv_dataDir = ''./blockchain-data'',
      sv_state = \<lparr>ss_blockHeight = 0, ss_latestHash = zero_digest, ss_totalTx = 1,
                  ss_chainId = ''medchain-local-001'',
                  ss_genesis = ''2024-01-01T00:00:00.000Z''\<rparr>,
      sv_blocks = Map.empty, sv_txs = Map.empty,
      sv_stateFile = Some \<lparr>ss_blockHeight = 0, ss_latestHash = zero_digest, ss_totalTx = 1,
                            ss_chainId = ''medchain-local-001'',
                            ss_genesis = ''2024-01-01T00:00:00.000Z''\<rparr>\<rparr>"

section \<open>The Hasher and the Merkle Accumulator\<close>

lemma hex32_length: "length (hex32 w) = 8"
  by (simp add: hex32_def)

lemma hex_of_regs_length: "length (hex_of_regs r) = 64"
  by (cases r rule: hex_of_regs.cases) (simp add: hex32_length)

lemma sha256_length: "length (sha256 s) = 64"
  by (simp add: sha256_def Let_def hex_of_regs_length)

lemma sha256_nonempty: "sha256 s \<noteq> []"
  using sha256_length [of s] by auto

text \<open>The digests of the two sentinels, computed by the definition.\<close>

lemma sha256_empty_block:
  "sha256 ''empty-block'' = ''8d87f7eaadbfe2849aab6d77896031e84d8bd70ed3631f807498fb95577881b7''"
  by code_simp

lemma sha256_empty:
  "sha256 ''empty'' = ''2e1cfa82b035c26cbbbdae632cea070514eb8b773f616aaeaf668e2f0be8f10d''"
  by code_simp

lemma pair_level_length: "length (pair_level xs) = (length xs + 1) div 2"
  by (induction xs rule: pair_level.induct) simp_all

lemma pair_level_nonempty: "\<forall>d\<in>set (pair_level ds). d \<noteq> []"
  by (induction ds rule: pair_level.induct) (simp_all add: sha256_nonempty)

text \<open>
  The \<open>for\<close> loop, started at \<open>i\<close>, appends one level of the digests from \<open>i\<close> on.
  Digests are never the empty string, so \<open>||\<close> takes \<open>left\<close> only out of range.
\<close>

lemma merkle_for_drop:
  "\<forall>d\<in>set hs. d \<noteq> [] \<Longrightarrow> merkle_for hs i acc = acc @ pair_level (drop i hs)"
proof (induction hs i acc rule: merkle_for.induct)
  case (1 hs i acc)
  show ?case
  proof (cases "i < length hs")
    case False
    then show ?thesis by (subst merkle_for.simps) simp
  next
    case True
    note IH = "1.IH" [OF True refl refl "1.prems"]
    show ?thesis
    proof (cases "i + 1 < length hs")
      case True
      then have ne: "hs ! (i + 1) \<noteq> []" using "1.prems" by (meson nth_mem)
      have d: "drop i hs = hs ! i # hs ! (i + 1) # drop (i + 2) hs"
        using True by (simp add: Cons_nth_drop_Suc)
      show ?thesis
        using True ne IH by (subst merkle_for.simps) (simp add: Let_def d)
    next
      case False
      with True have d: "drop i hs = [hs ! i]" "drop (i + 2) hs = []"
        by (simp_all add: Cons_nth_drop_Suc [symmetric])
      show ?thesis
        using True False IH by (subst merkle_for.simps) (simp add: Let_def d)
    qed
  qed
qed

lemma merkle_while_reduce:
  "\<forall>d\<in>set hs. d \<noteq> [] \<Longrightarrow> merkle_while hs = reduce_levels hs"
proof (induction hs rule: reduce_levels.induct)
  case (1 ds)
  show ?case
  proof (cases "length ds \<le> 1")
    case True
    then show ?thesis
      by (subst merkle_while.simps, subst reduce_levels.simps) simp
  next
    case False
    have step: "merkle_for ds 0 [] = pair_level ds"
      using merkle_for_drop [OF "1.prems", of 0 "[]"] by simp
    have "merkle_while (pair_level ds) = reduce_levels (pair_level ds)"
      using "1.IH" [OF False] pair_level_nonempty by blast
    with False step show ?thesis
      by (subst merkle_while.simps, subst reduce_levels.simps) simp
  qed
qed

lemma reduce_levels_single: "ds \<noteq> [] \<Longrightarrow> length (reduce_levels ds) = 1"
proof (induction ds rule: reduce_levels.induct)
  case (1 ds)
  show ?case
  proof (cases "length ds \<le> 1")
    case True
    with "1.prems" have "length ds = 1" by (cases ds) auto
    with True show ?thesis by (subst reduce_levels.simps) simp
  next
    case False
    then have "pair_level ds \<noteq> []"
      using pair_level_length [of ds] by (cases ds) auto
    with "1.IH" [OF False] False show ?thesis
      by (subst reduce_levels.simps) simp
  qed
qed

lemma leaves_nonempty: "\<forall>d\<in>set (map tx_leaf txs). d \<noteq> []"
  by (simp add: tx_leaf_def sha256_nonempty)

lemma merkle_while_leaves:
  "txs \<noteq> [] \<Longrightarrow> reduce_levels (map tx_leaf txs) = [merkle_while (map tx_leaf txs) ! 0]"
proof -
  assume ne: "txs \<noteq> []"
  have eq: "merkle_while (map tx_leaf txs) = reduce_levels (map tx_leaf txs)"
    by (rule merkle_while_reduce [OF leaves_nonempty])
  have "length (reduce_levels (map tx_leaf txs)) = 1"
    using ne by (simp add: reduce_levels_single)
  then obtain r where "reduce_levels (map tx_leaf txs) = [r]"
    by (cases "reduce_levels (map tx_leaf txs)") auto
  with eq show ?thesis by simp
qed

lemma pair_level_dup_last:
  "odd (length ds) \<Longrightarrow> pair_level (ds @ [last ds]) = pair_level ds"
  by (induction ds rule: pair_level.induct) auto

lemma reduce_levels_dup_last:
  assumes "odd (length ds)" and "3 \<le> length ds"
  shows "reduce_levels (ds @ [last ds]) = reduce_levels ds"
proof -
  from assms(2) have ne: "ds \<noteq> []" by auto
  have "reduce_levels (ds @ [last ds]) = reduce_levels (pair_level (ds @ [last ds]))"
    using ne by (subst reduce_levels.simps) simp
  also have "\<dots> = reduce_levels (pair_level ds)"
    by (simp add: pair_level_dup_last [OF assms(1)])
  also have "\<dots> = reduce_levels ds"
    using assms(2) by (subst (2) reduce_levels.simps) simp
  finally show ?thesis .
qed

text \<open>
  C6. For a non-empty transaction sequence, the root of both classes is the single digest
  left when the leaf digests are reduced level by level, each level hashing the pairs
  from the left as \<open>Hasher(left || right)\<close> and pairing an unpaired last digest with
  itself (\<open>pair_level\<close>), until exactly one digest remains.
\<close>

theorem calculateMerkleRoot_levels:
  assumes "txs \<noteq> []"
  shows "reduce_levels (map tx_leaf txs) = [bc_calculateMerkleRoot txs]
       \<and> reduce_levels (map tx_leaf txs) = [srv_calculateMerkleRoot txs]"
  using assms merkle_while_leaves [OF assms]
  by (simp add: bc_calculateMerkleRoot_def srv_calculateMerkleRoot_def)

theorem calculateMerkleRoot_levels_witness:
  "[tx_a, tx_b, tx_c] \<noteq> []
   \<and> bc_calculateMerkleRoot [tx_a, tx_b, tx_c]
       = sha256 (sha256 (tx_leaf tx_a @ tx_leaf tx_b) @ sha256 (tx_leaf tx_c @ tx_leaf tx_c))
   \<and> srv_calculateMerkleRoot [tx_a, tx_b, tx_c]
       = sha256 (sha256 (tx_leaf tx_a @ tx_leaf tx_b) @ sha256 (tx_leaf tx_c @ tx_leaf tx_c))"
proof -
  have ne: "[tx_a, tx_b, tx_c] \<noteq> []" by simp
  have r: "reduce_levels (map tx_leaf [tx_a, tx_b, tx_c])
        = [sha256 (sha256 (tx_leaf tx_a @ tx_leaf tx_b) @ sha256 (tx_leaf tx_c @ tx_leaf tx_c))]"
    by (simp add: reduce_levels.simps)
  show ?thesis
    using calculateMerkleRoot_levels [OF ne] unfolding r by auto
qed

text \<open>
  C7, as amended. For the empty transaction sequence, \<open>calculateMerkleRoot\<close> of
  \<^verbatim>\<open>blockchain.js\<close> returns \<open>Hasher("empty-block")\<close> and \<open>calculateMerkleRoot\<close> of
  \<^verbatim>\<open>server.js\<close> returns \<open>Hasher("empty")\<close>.
\<close>

theorem calculateMerkleRoot_empty:
  "bc_calculateMerkleRoot [] = sha256 ''empty-block''
   \<and> srv_calculateMerkleRoot [] = sha256 ''empty''"
  by (simp add: bc_calculateMerkleRoot_def srv_calculateMerkleRoot_def)

text \<open>
  C7 as stated fails for \<^verbatim>\<open>server.js\<close>: its root of the empty sequence is not the
  digest of \<open>"empty-block"\<close>.
\<close>

theorem srv_calculateMerkleRoot_empty_counterexample:
  "srv_calculateMerkleRoot [] \<noteq> sha256 ''empty-block''"
  by (simp add: srv_calculateMerkleRoot_def sha256_empty sha256_empty_block)

text \<open>
  C10. For every transaction sequence \<open>L\<close> of odd length at least 3, appending a second
  copy of the last transaction of \<open>L\<close> gives a different sequence with the same root, in
  both classes.
\<close>

theorem calculateMerkleRoot_duplicate_last:
  assumes "odd (length L)" and "3 \<le> length L"
  shows "L @ [last L] \<noteq> L
       \<and> bc_calculateMerkleRoot (L @ [last L]) = bc_calculateMerkleRoot L
       \<and> srv_calculateMerkleRoot (L @ [last L]) = srv_calculateMerkleRoot L"
proof -
  from assms(2) have ne: "L \<noteq> []" by auto
  have leaves: "map tx_leaf (L @ [last L]) = map tx_leaf L @ [last (map tx_leaf L)]"
    using ne by (simp add: last_map)
  have "reduce_levels (map tx_leaf (L @ [last L])) = reduce_levels (map tx_leaf L)"
    using assms by (simp only: leaves) (rule reduce_levels_dup_last, simp_all)
  moreover have "reduce_levels (map tx_leaf (L @ [last L]))
                 = [merkle_while (map tx_leaf (L @ [last L])) ! 0]"
    by (rule merkle_while_leaves) simp
  moreover have "reduce_levels (map tx_leaf L) = [merkle_while (map tx_leaf L) ! 0]"
    by (rule merkle_while_leaves [OF ne])
  ultimately have "merkle_while (map tx_leaf (L @ [last L])) ! 0
                   = merkle_while (map tx_leaf L) ! 0"
    by simp
  with ne show ?thesis
    by (simp add: bc_calculateMerkleRoot_def srv_calculateMerkleRoot_def)
qed

theorem calculateMerkleRoot_duplicate_last_witness:
  "odd (length [tx_a, tx_b, tx_c]) \<and> 3 \<le> length [tx_a, tx_b, tx_c]
   \<and> [tx_a, tx_b, tx_c, tx_c] \<noteq> [tx_a, tx_b, tx_c]
   \<and> bc_calculateMerkleRoot [tx_a, tx_b, tx_c, tx_c] = bc_calculateMerkleRoot [tx_a, tx_b, tx_c]
   \<and> srv_calculateMerkleRoot [tx_a, tx_b, tx_c, tx_c] = srv_calculateMerkleRoot [tx_a, tx_b, tx_c]"
proof -
  have o: "odd (length [tx_a, tx_b, tx_c])" by simp
  have l: "3 \<le> length [tx_a, tx_b, tx_c]" by simp
  from calculateMerkleRoot_duplicate_last [OF o l] o l show ?thesis by simp
qed

section \<open>Validation and statistics\<close>

lemma bc_validateLoop_concat:
  "bc_validateLoop c i errors
     = errors @ concat (map (bc_validateBlock c) [i..bs_blockHeight (bc_state c)])"
proof (induction c i errors rule: bc_validateLoop.induct)
  case (1 c i errors)
  show ?case
  proof (cases "i \<le> bs_blockHeight (bc_state c)")
    case True
    then have "[i..bs_blockHeight (bc_state c)] = i # [i + 1..bs_blockHeight (bc_state c)]"
      by (simp add: upto_rec1)
    with True "1.IH" show ?thesis
      by (subst bc_validateLoop.simps) simp
  next
    case False
    then show ?thesis by (subst bc_validateLoop.simps) simp
  qed
qed

lemma bc_validateBlock_checks:
  "map (\<lambda>e. (ve_block e, verr_check e)) (bc_validateBlock c i)
     = map (Pair i) (failed_checks (bc_view c) i)"
  by (simp add: bc_validateBlock_def failed_checks_def bc_view_def verr_check_def Let_def
      split: option.splits)

lemma bc_validateChain_audit:
  "map (\<lambda>e. (ve_block e, verr_check e)) (bv_errors (bc_validateChain c))
     = audit (bc_view c) (bs_blockHeight (bc_state c))"
  by (simp add: bc_validateChain_def Let_def bc_validateLoop_concat audit_def map_concat
      bc_validateBlock_checks comp_def)

lemma srv_validateLoop_valid:
  "vl_valid (srv_validateLoop c i)
     = (\<forall>j. i \<le> j \<and> j \<le> ss_blockHeight (sv_state c) \<longrightarrow> srv_checkBlock c j = None)"
proof (induction c i rule: srv_validateLoop.induct)
  case (1 c i)
  show ?case
  proof (cases "i \<le> ss_blockHeight (sv_state c)")
    case False
    then show ?thesis by (subst srv_validateLoop.simps) auto
  next
    case True
    show ?thesis
    proof (cases "srv_checkBlock c i")
      case (Some msg)
      with True show ?thesis by (subst srv_validateLoop.simps) auto
    next
      case None
      have "(\<forall>j. i \<le> j \<and> j \<le> ss_blockHeight (sv_state c) \<longrightarrow> srv_checkBlock c j = None)
            = (\<forall>j. i + 1 \<le> j \<and> j \<le> ss_blockHeight (sv_state c) \<longrightarrow> srv_checkBlock c j = None)"
        using None by (metis add1_zle_eq order_le_less)
      with "1.IH" [OF True None] True None show ?thesis
        by (subst srv_validateLoop.simps) simp
    qed
  qed
qed

lemma srv_validateLoop_shape:
  "srv_validateLoop c i =
     \<lparr>vl_valid = True, vl_blocksVerified = Some (ss_blockHeight (sv_state c) + 1), vl_error = None\<rparr>
   \<or> (\<exists>j msg. i \<le> j \<and> j \<le> ss_blockHeight (sv_state c) \<and> srv_checkBlock c j = Some msg
         \<and> (\<forall>k. i \<le> k \<and> k < j \<longrightarrow> srv_checkBlock c k = None)
         \<and> srv_validateLoop c i =
             \<lparr>vl_valid = False, vl_blocksVerified = None, vl_error = Some msg\<rparr>)"
proof (induction c i rule: srv_validateLoop.induct)
  case (1 c i)
  show ?case
  proof (cases "i \<le> ss_blockHeight (sv_state c)")
    case False
    then show ?thesis by (subst (1 2) srv_validateLoop.simps) simp
  next
    case True
    show ?thesis
    proof (cases "srv_checkBlock c i")
      case (Some msg)
      with True have "srv_validateLoop c i =
             \<lparr>vl_valid = False, vl_blocksVerified = None, vl_error = Some msg\<rparr>"
        by (subst srv_validateLoop.simps) simp
      with True Some show ?thesis by (intro disjI2 exI [of _ i] exI [of _ msg]) auto
    next
      case None
      then have eq: "srv_validateLoop c i = srv_validateLoop c (i + 1)"
        using True by (subst srv_validateLoop.simps) simp
      from "1.IH" [OF True None] show ?thesis
      proof
        assume "srv_validateLoop c (i + 1) =
          \<lparr>vl_valid = True, vl_blocksVerified = Some (ss_blockHeight (sv_state c) + 1), vl_error = None\<rparr>"
        with eq show ?thesis by simp
      next
        assume "\<exists>j msg. i + 1 \<le> j \<and> j \<le> ss_blockHeight (sv_state c) \<and> srv_checkBlock c j = Some msg
         \<and> (\<forall>k. i + 1 \<le> k \<and> k < j \<longrightarrow> srv_checkBlock c k = None)
         \<and> srv_validateLoop c (i + 1) =
             \<lparr>vl_valid = False, vl_blocksVerified = None, vl_error = Some msg\<rparr>"
        then obtain j msg where j: "i + 1 \<le> j" "j \<le> ss_blockHeight (sv_state c)"
          "srv_checkBlock c j = Some msg"
          "\<forall>k. i + 1 \<le> k \<and> k < j \<longrightarrow> srv_checkBlock c k = None"
          "srv_validateLoop c (i + 1) =
             \<lparr>vl_valid = False, vl_blocksVerified = None, vl_error = Some msg\<rparr>"
          by blast
        have "\<forall>k. i \<le> k \<and> k < j \<longrightarrow> srv_checkBlock c k = None"
        proof (intro allI impI)
          fix k assume "i \<le> k \<and> k < j"
          then have "k = i \<or> (i + 1 \<le> k \<and> k < j)" by auto
          with None j(4) show "srv_checkBlock c k = None" by auto
        qed
        with j eq show ?thesis
          by (intro disjI2 exI [of _ j] exI [of _ msg]) auto
      qed
    qed
  qed
qed

lemma srv_checkBlock_None:
  "(srv_checkBlock c i = None)
     = (\<exists>b p. srv_getBlock c i = Some b \<and> srv_getBlock c (i - 1) = Some p
          \<and> sb_prevHash b = sb_hash p \<and> srv_calculateBlockHash b = sb_hash b)"
  by (auto simp: srv_checkBlock_def split: option.splits)

lemma bc_saveTxs_None [simp]:
  "bc_saveTxs None k block ts c =
     (None, c\<lparr>bc_txs := foldl (\<lambda>m t. m(tx_hash t \<mapsto> (t, bk_number block, bk_hash block))) (bc_txs c) ts\<rparr>)"
  by (induction ts arbitrary: k c) simp_all

lemma srv_saveTxs_None [simp]:
  "srv_saveTxs None k block ts c =
     (None, c\<lparr>sv_txs := foldl (\<lambda>m t. m(tx_hash t \<mapsto> (t, sb_number block))) (sv_txs c) ts\<rparr>)"
  by (induction ts arbitrary: k c) simp_all

lemma bc_initialize_first_run:
  "case bc_initialize dataDir blockFiles txFiles None now None of
     Inl err \<Rightarrow> False
   | Inr c \<Rightarrow>
       (case bc_getBlock c 0 of
          None \<Rightarrow> False
        | Some g \<Rightarrow>
            bk_number g = 0 \<and> bk_previousHash g = replicate 64 CHR ''0''
            \<and> length (bk_transactions g) = 1
            \<and> tx_type (bk_transactions g ! 0) = ''GENESIS'')
       \<and> bs_blockHeight (bc_state c) = 0
       \<and> bs_totalTransactions (bc_state c) = 1
       \<and> bc_validateChain c = \<lparr>bv_valid = True, bv_blocksVerified = 1, bv_errors = []\<rparr>"
  apply (simp add: bc_initialize_def bc_createGenesisBlock_def bc_saveBlock_def
      bc_saveState_def Let_def bc_getBlock_def zero_digest_def bc_validateChain_def)
  apply (subst bc_validateLoop.simps, simp)
  apply (subst bc_validateLoop.simps, simp)
  apply (simp add: bc_validateBlock_def bc_getBlock_def Let_def bc_calculateBlockHash_def)
  done

lemma srv_new_first_run:
  "case srv_new dataDir blockFiles txFiles None isoNow now None of
     Inl err \<Rightarrow> False
   | Inr c \<Rightarrow>
       (case srv_getBlock c 0 of
          None \<Rightarrow> False
        | Some g \<Rightarrow>
            sb_number g = 0 \<and> sb_prevHash g = replicate 64 CHR ''0''
            \<and> length (sb_transactions g) = 1
            \<and> tx_type (sb_transactions g ! 0) = ''GENESIS'')
       \<and> ss_blockHeight (sv_state c) = 0
       \<and> ss_totalTx (sv_state c) = 1
       \<and> srv_validateChain c = \<lparr>vl_valid = True, vl_blocksVerified = Some 1, vl_error = None\<rparr>"
  apply (simp add: srv_new_def srv_createGenesisBlock_def srv_saveBlock_def
      srv_saveState_def Let_def srv_getBlock_def zero_digest_def srv_validateChain_def)
  apply (subst srv_validateLoop.simps, simp)
  done

text \<open>
  C5. On a first run (no \<open>state.json\<close>), with every write succeeding, the constructor
  of either class returns an object whose block 0 has number 0, the previous hash of 64
  zero characters and exactly one transaction, of type \<open>GENESIS\<close>; the head state
  has height 0 and one transaction; and \<open>validateChain\<close> on this object reports
  valid, one block verified and no error.
\<close>

theorem initialize_genesis:
  "(case bc_initialize dataDir blockFiles txFiles None now None of
      Inl err \<Rightarrow> False
    | Inr c \<Rightarrow>
        (case bc_getBlock c 0 of
           None \<Rightarrow> False
         | Some g \<Rightarrow>
             bk_number g = 0 \<and> bk_previousHash g = replicate 64 CHR ''0''
             \<and> length (bk_transactions g) = 1
             \<and> tx_type (bk_transactions g ! 0) = ''GENESIS'')
        \<and> bs_blockHeight (bc_state c) = 0
        \<and> bs_totalTransactions (bc_state c) = 1
        \<and> bc_validateChain c = \<lparr>bv_valid = True, bv_blocksVerified = 1, bv_errors = []\<rparr>)
   \<and> (case srv_new dataDir' blockFiles' txFiles' None isoNow now' None of
      Inl err \<Rightarrow> False
    | Inr c \<Rightarrow>
        (case srv_getBlock c 0 of
           None \<Rightarrow> False
         | Some g \<Rightarrow>
             sb_number g = 0 \<and> sb_prevHash g = replicate 64 CHR ''0''
             \<and> length (sb_transactions g) = 1
             \<and> tx_type (sb_transactions g ! 0) = ''GENESIS'')
        \<and> ss_blockHeight (sv_state c) = 0
        \<and> ss_totalTx (sv_state c) = 1
        \<and> srv_validateChain c
            = \<lparr>vl_valid = True, vl_blocksVerified = Some 1, vl_error = None\<rparr>)"
  using bc_initialize_first_run [of dataDir blockFiles txFiles now]
    srv_new_first_run [of dataDir' blockFiles' txFiles' isoNow now']
  by (rule conjI)

text \<open>
  C2, as amended. \<open>validateChain\<close> of \<^verbatim>\<open>blockchain.js\<close> visits the block numbers 0 to
  the head height, reports for each block the failed ones of the four checks (a missing
  block has the single entry of check (a); check (d) is made only when the prior block is
  retrievable) without stopping at a failure, in order, is valid exactly when it reports
  no error, and counts head height + 1 blocks verified. \<open>validateChain\<close> of
  \<^verbatim>\<open>server.js\<close> visits the block numbers 1 to the head height only, is valid exactly when
  for each of them the block and its prior block are retrievable, the link holds and the
  recomputed hash equals the stored one (Merkle roots and the hash of block 0 are not
  checked); when valid it returns head height + 1 blocks verified, otherwise it stops at
  the first failing block and returns its single message, with no count and no sequence.
\<close>

theorem validateChain_report:
  "map (\<lambda>e. (ve_block e, verr_check e)) (bv_errors (bc_validateChain c))
     = audit (bc_view c) (bs_blockHeight (bc_state c))
   \<and> bv_valid (bc_validateChain c) = (bv_errors (bc_validateChain c) = [])
   \<and> bv_blocksVerified (bc_validateChain c) = bs_blockHeight (bc_state c) + 1
   \<and> vl_valid (srv_validateChain s)
       = (\<forall>i. 1 \<le> i \<and> i \<le> ss_blockHeight (sv_state s) \<longrightarrow>
            (\<exists>b p. srv_getBlock s i = Some b \<and> srv_getBlock s (i - 1) = Some p
               \<and> sb_prevHash b = sb_hash p \<and> srv_calculateBlockHash b = sb_hash b))
   \<and> (vl_valid (srv_validateChain s) \<longrightarrow>
        srv_validateChain s
          = \<lparr>vl_valid = True, vl_blocksVerified = Some (ss_blockHeight (sv_state s) + 1),
             vl_error = None\<rparr>)
   \<and> (\<not> vl_valid (srv_validateChain s) \<longrightarrow>
        (\<exists>i msg. 1 \<le> i \<and> i \<le> ss_blockHeight (sv_state s)
           \<and> srv_checkBlock s i = Some msg
           \<and> (\<forall>k. 1 \<le> k \<and> k < i \<longrightarrow> srv_checkBlock s k = None)
           \<and> srv_validateChain s
               = \<lparr>vl_valid = False, vl_blocksVerified = None, vl_error = Some msg\<rparr>))"
proof (intro conjI)
  show "map (\<lambda>e. (ve_block e, verr_check e)) (bv_errors (bc_validateChain c))
     = audit (bc_view c) (bs_blockHeight (bc_state c))"
    by (rule bc_validateChain_audit)
  show "bv_valid (bc_validateChain c) = (bv_errors (bc_validateChain c) = [])"
    by (simp add: bc_validateChain_def Let_def)
  show "bv_blocksVerified (bc_validateChain c) = bs_blockHeight (bc_state c) + 1"
    by (simp add: bc_validateChain_def Let_def)
  show "vl_valid (srv_validateChain s)
       = (\<forall>i. 1 \<le> i \<and> i \<le> ss_blockHeight (sv_state s) \<longrightarrow>
            (\<exists>b p. srv_getBlock s i = Some b \<and> srv_getBlock s (i - 1) = Some p
               \<and> sb_prevHash b = sb_hash p \<and> srv_calculateBlockHash b = sb_hash b))"
    by (simp only: srv_validateChain_def srv_validateLoop_valid srv_checkBlock_None)
  show "vl_valid (srv_validateChain s) \<longrightarrow>
        srv_validateChain s
          = \<lparr>vl_valid = True, vl_blocksVerified = Some (ss_blockHeight (sv_state s) + 1),
             vl_error = None\<rparr>"
    using srv_validateLoop_shape [of s 1] by (auto simp: srv_validateChain_def)
  show "\<not> vl_valid (srv_validateChain s) \<longrightarrow>
        (\<exists>i msg. 1 \<le> i \<and> i \<le> ss_blockHeight (sv_state s)
           \<and> srv_checkBlock s i = Some msg
           \<and> (\<forall>k. 1 \<le> k \<and> k < i \<longrightarrow> srv_checkBlock s k = None)
           \<and> srv_validateChain s
               = \<lparr>vl_valid = False, vl_blocksVerified = None, vl_error = Some msg\<rparr>)"
    using srv_validateLoop_shape [of s 1] by (auto simp: srv_validateChain_def)
qed

theorem validateChain_report_witness:
  "map (\<lambda>e. (ve_block e, verr_check e)) (bv_errors (bc_validateChain bc_lost))
     = [(0, Retrievable)]
   \<and> bv_valid (bc_validateChain bc_lost) = False
   \<and> bv_blocksVerified (bc_validateChain bc_lost) = 1
   \<and> srv_validateChain srv_lost
       = \<lparr>vl_valid = True, vl_blocksVerified = Some 1, vl_error = None\<rparr>"
proof -
  note th = validateChain_report [of bc_lost srv_lost]
  have a: "audit (bc_view bc_lost) (bs_blockHeight (bc_state bc_lost)) = [(0, Retrievable)]"
    by (simp add: audit_def failed_checks_def bc_view_def bc_getBlock_def bc_lost_def)
  have h: "ss_blockHeight (sv_state srv_lost) = 0" "bs_blockHeight (bc_state bc_lost) = 0"
    by (simp_all add: srv_lost_def bc_lost_def)
  from th a have e: "map (\<lambda>e. (ve_block e, verr_check e)) (bv_errors (bc_validateChain bc_lost))
     = [(0, Retrievable)]" by simp
  then have ne: "bv_errors (bc_validateChain bc_lost) \<noteq> []" by auto
  have "\<not> (1 \<le> i \<and> i \<le> (0::int))" for i by arith
  with th h have v: "vl_valid (srv_validateChain srv_lost)" by simp
  from th v h e ne show ?thesis by simp
qed

text \<open>
  C2 as stated fails for \<^verbatim>\<open>server.js\<close>: with head height 0 and the file of block 0
  missing, check (a) fails on block 0, and \<open>validateChain\<close> still returns valid.
\<close>

theorem srv_validateChain_counterexample:
  "vl_valid (srv_validateChain srv_lost)
   \<and> audit (srv_view srv_lost) (ss_blockHeight (sv_state srv_lost)) = [(0, Retrievable)]"
  by (subst srv_validateChain_def, subst srv_validateLoop.simps)
     (simp add: audit_def failed_checks_def srv_view_def srv_getBlock_def srv_lost_def)

text \<open>
  C8, as amended. \<open>getStats\<close> of \<^verbatim>\<open>server.js\<close> returns the chain id, total blocks =
  head height + 1, the transaction count and the latest block hash of the head state,
  with the fields of a \<open>validateChain\<close> result computed in the call: \<open>valid\<close> and
  \<open>blocksVerified\<close> when the chain validates, \<open>valid\<close> and one \<open>error\<close> message when
  it does not. \<open>getStats\<close> of \<^verbatim>\<open>blockchain.js\<close> returns head-state fields, total
  blocks = head height + 1 and the data directory; it depends on no block file and holds
  no validation result.
\<close>

theorem getStats_fields:
  "sst_chainId (srv_getStats s) = ss_chainId (sv_state s)
   \<and> sst_totalBlocks (srv_getStats s) = ss_blockHeight (sv_state s) + 1
   \<and> sst_totalTransactions (srv_getStats s) = ss_totalTx (sv_state s)
   \<and> sst_latestBlockHash (srv_getStats s) = ss_latestHash (sv_state s)
   \<and> sst_valid (srv_getStats s) = vl_valid (srv_validateChain s)
   \<and> sst_blocksVerified (srv_getStats s) = vl_blocksVerified (srv_validateChain s)
   \<and> sst_error (srv_getStats s) = vl_error (srv_validateChain s)
   \<and> (sst_valid (srv_getStats s) \<longrightarrow>
        sst_blocksVerified (srv_getStats s) = Some (ss_blockHeight (sv_state s) + 1)
        \<and> sst_error (srv_getStats s) = None)
   \<and> (\<not> sst_valid (srv_getStats s) \<longrightarrow>
        sst_blocksVerified (srv_getStats s) = None \<and> sst_error (srv_getStats s) \<noteq> None)
   \<and> bc_getStats c
       = \<lparr>st_chainId = bs_chainId (bc_state c),
          st_blockHeight = bs_blockHeight (bc_state c),
          st_totalBlocks = bs_blockHeight (bc_state c) + 1,
          st_totalTransactions = bs_totalTransactions (bc_state c),
          st_latestBlockHash = bs_latestBlockHash (bc_state c),
          st_genesisTimestamp = bs_genesisTimestamp (bc_state c),
          st_dataDirectory = bc_dataDir c\<rparr>
   \<and> bc_getStats (c\<lparr>bc_blocks := blockFiles, bc_txs := txFiles\<rparr>) = bc_getStats c"
  using srv_validateLoop_shape [of s 1]
  by (auto simp: srv_getStats_def Let_def bc_getStats_def srv_validateChain_def)

theorem getStats_fields_witness:
  "sst_valid (srv_getStats srv_lost)
   \<and> sst_blocksVerified (srv_getStats srv_lost) = Some 1
   \<and> sst_error (srv_getStats srv_lost) = None
   \<and> sst_totalBlocks (srv_getStats srv_lost) = 1
   \<and> st_totalBlocks (bc_getStats bc_lost) = 1"
proof -
  note th = getStats_fields [of srv_lost bc_lost Map.empty Map.empty]
  have v: "vl_valid (srv_validateChain srv_lost)"
    by (subst srv_validateChain_def, subst srv_validateLoop.simps) (simp add: srv_lost_def)
  have h: "ss_blockHeight (sv_state srv_lost) = 0" "bs_blockHeight (bc_state bc_lost) = 0"
    by (simp_all add: srv_lost_def bc_lost_def)
  from th v have sv: "sst_valid (srv_getStats srv_lost)" by simp
  from th have "st_totalBlocks (bc_getStats bc_lost) = bs_blockHeight (bc_state bc_lost) + 1"
    by simp
  with th sv h show ?thesis by auto
qed

text \<open>
  C8 as stated fails for \<^verbatim>\<open>blockchain.js\<close>: deleting the block files of a fresh chain
  turns \<open>validateChain\<close> from valid to invalid and leaves \<open>getStats\<close> the same.
\<close>

theorem bc_getStats_counterexample:
  "case bc_initialize ''./blockchain-data'' Map.empty Map.empty None
          ''2024-01-01T00:00:00.000Z'' None of
     Inl err \<Rightarrow> False
   | Inr c \<Rightarrow>
       bc_getStats (c\<lparr>bc_blocks := Map.empty\<rparr>) = bc_getStats c
       \<and> bv_valid (bc_validateChain c)
       \<and> \<not> bv_valid (bc_validateChain (c\<lparr>bc_blocks := Map.empty\<rparr>))"
proof -
  let ?i = "bc_initialize ''./blockchain-data'' Map.empty Map.empty None
          ''2024-01-01T00:00:00.000Z'' None"
  from bc_initialize_first_run [of "''./blockchain-data''" Map.empty Map.empty
      "''2024-01-01T00:00:00.000Z''"]
  obtain c where c: "?i = Inr c" "bs_blockHeight (bc_state c) = 0"
    "bc_validateChain c = \<lparr>bv_valid = True, bv_blocksVerified = 1, bv_errors = []\<rparr>"
    by (cases ?i) auto
  have "\<not> bv_valid (bc_validateChain (c\<lparr>bc_blocks := Map.empty\<rparr>))"
    using c(2)
    by (simp add: bc_validateChain_def bc_validateLoop_concat bc_validateBlock_def
        bc_getBlock_def Let_def)
  with c show ?thesis by (simp add: bc_getStats_def)
qed

section \<open>Appending\<close>

lemma bc_addTransaction_result:
  "case bc_getLatestBlock c of
     None \<Rightarrow> bc_addTransaction c type data timestamp now f = (Inl TypeError, c)
   | Some latest \<Rightarrow>
       (case bk_transactions (bc_newBlock latest type data timestamp now) of
          [t] \<Rightarrow>
            (case bc_addTransaction c type data timestamp now f of
               (r, c') \<Rightarrow>
                 bc_dataDir c' = bc_dataDir c
                 \<and> bk_number (bc_newBlock latest type data timestamp now)
                     = bk_number latest + 1
                 \<and> bk_previousHash (bc_newBlock latest type data timestamp now)
                     = bk_hash latest
                 \<and> (if f = Some 0 then r = Inl StorageError \<and> c' = c
                     else bc_blocks c'
                            = (bc_blocks c)(bk_number latest + 1 \<mapsto>
                                 bc_newBlock latest type data timestamp now)
                       \<and> (if f = Some 1 then
                             r = Inl StorageError \<and> bc_txs c' = bc_txs c
                             \<and> bc_state c' = bc_state c \<and> bc_stateFile c' = bc_stateFile c
                           else
                             bc_txs c'
                               = (bc_txs c)(tx_hash t \<mapsto>
                                    (t, bk_number latest + 1,
                                     bk_hash (bc_newBlock latest type data timestamp now)))
                             \<and> bc_state c'
                                 = (bc_state c)
                                     \<lparr>bs_blockHeight := bk_number latest + 1,
                                      bs_latestBlockHash :=
                                        bk_hash (bc_newBlock latest type data timestamp now),
                                      bs_totalTransactions :=
                                        bs_totalTransactions (bc_state c) + 1\<rparr>
                             \<and> (if f = Some 2 then
                                   r = Inl StorageError \<and> bc_stateFile c' = bc_stateFile c
                                 else
                                   r = Inr \<lparr>r_txHash = tx_hash t,
                                            r_blockNumber = bk_number latest + 1,
                                            r_blockHash =
                                              bk_hash (bc_newBlock latest type data timestamp now),
                                            r_timestamp = timestamp\<rparr>
                                   \<and> bc_stateFile c' = Some (bc_state c')))))
        | _ \<Rightarrow> False)"
  by (auto simp: bc_addTransaction_def bc_saveBlock_def bc_saveState_def Let_def
      bc_newBlock_def split: option.splits)

lemma srv_addTransaction_result:
  "case srv_getLatestBlock s of
     None \<Rightarrow> srv_addTransaction s type data timestamp now1 now2 f = (Inl TypeError, s)
   | Some latest \<Rightarrow>
       (case sb_transactions (srv_newBlock latest type data timestamp now1 now2) of
          [t] \<Rightarrow>
            (case srv_addTransaction s type data timestamp now1 now2 f of
               (r, s') \<Rightarrow>
                 sv_dataDir s' = sv_dataDir s
                 \<and> sb_number (srv_newBlock latest type data timestamp now1 now2)
                     = sb_number latest + 1
                 \<and> sb_prevHash (srv_newBlock latest type data timestamp now1 now2)
                     = sb_hash latest
                 \<and> (if f = Some 0 then r = Inl StorageError \<and> s' = s
                     else sv_blocks s'
                            = (sv_blocks s)(sb_number latest + 1 \<mapsto>
                                 srv_newBlock latest type data timestamp now1 now2)
                       \<and> (if f = Some 1 then
                             r = Inl StorageError \<and> sv_txs s' = sv_txs s
                             \<and> sv_state s' = sv_state s \<and> sv_stateFile s' = sv_stateFile s
                           else
                             sv_txs s' = (sv_txs s)(tx_hash t \<mapsto> (t, sb_number latest + 1))
                             \<and> sv_state s'
                                 = (sv_state s)
                                     \<lparr>ss_blockHeight := sb_number latest + 1,
                                      ss_latestHash :=
                                        sb_hash (srv_newBlock latest type data timestamp now1 now2),
                                      ss_totalTx := ss_totalTx (sv_state s) + 1\<rparr>
                             \<and> (if f = Some 2 then
                                   r = Inl StorageError \<and> sv_stateFile s' = sv_stateFile s
                                 else
                                   r = Inr \<lparr>r_txHash = tx_hash t,
                                            r_blockNumber = sb_number latest + 1,
                                            r_blockHash =
                                              sb_hash (srv_newBlock latest type data timestamp
                                                         now1 now2),
                                            r_timestamp = timestamp\<rparr>
                                   \<and> sv_stateFile s' = Some (sv_state s')))))
        | _ \<Rightarrow> False)"
  by (auto simp: srv_addTransaction_def srv_saveBlock_def srv_saveState_def Let_def
      srv_newBlock_def split: option.splits simp del: stringify.simps)

text \<open>
  C3, as amended. A call of \<open>addTransaction\<close> reads the latest block, the block file
  at the head height, and throws a \<open>TypeError\<close> with nothing changed when that file is
  missing. Otherwise it builds the new block, numbered the latest block's number + 1,
  and makes three writes in order: the block file, the transaction file, \<open>state.json\<close>.
  When the write of the block file fails, the call throws the storage error and nothing
  is changed. When the write of the transaction file fails, the call throws the storage
  error, the block file of the new block is already persisted, and the transaction
  files and the head state, in memory and on disk, are unchanged. When the write of
  \<open>state.json\<close> fails, the call throws the storage error and \<open>state.json\<close> is
  unchanged, but the block file and the transaction file are persisted and the head
  state in memory is already advanced: its height is the number of the new block, its
  latest hash the hash of the new block, its transaction count one more. When no write
  fails, the call returns the receipt of the new block, with the same effects and
  \<open>state.json\<close> holding the advanced head state. Both classes.
\<close>

theorem addTransaction_atomicity:
  "(case bc_getLatestBlock c of
     None \<Rightarrow> bc_addTransaction c type data timestamp now f = (Inl TypeError, c)
   | Some latest \<Rightarrow>
       (case bk_transactions (bc_newBlock latest type data timestamp now) of
          [t] \<Rightarrow>
            (case bc_addTransaction c type data timestamp now f of
               (r, c') \<Rightarrow>
                 bc_dataDir c' = bc_dataDir c
                 \<and> bk_number (bc_newBlock latest type data timestamp now)
                     = bk_number latest + 1
                 \<and> bk_previousHash (bc_newBlock latest type data timestamp now)
                     = bk_hash latest
                 \<and> (if f = Some 0 then r = Inl StorageError \<and> c' = c
                     else bc_blocks c'
                            = (bc_blocks c)(bk_number latest + 1 \<mapsto>
                                 bc_newBlock latest type data timestamp now)
                       \<and> (if f = Some 1 then
                             r = Inl StorageError \<and> bc_txs c' = bc_txs c
                             \<and> bc_state c' = bc_state c \<and> bc_stateFile c' = bc_stateFile c
                           else
                             bc_txs c'
                               = (bc_txs c)(tx_hash t \<mapsto>
                                    (t, bk_number latest + 1,
                                     bk_hash (bc_newBlock latest type data timestamp now)))
                             \<and> bc_state c'
                                 = (bc_state c)
                                     \<lparr>bs_blockHeight := bk_number latest + 1,
                                      bs_latestBlockHash :=
                                        bk_hash (bc_newBlock latest type data timestamp now),
                                      bs_totalTransactions :=
                                        bs_totalTransactions (bc_state c) + 1\<rparr>
                             \<and> (if f = Some 2 then
                                   r = Inl StorageError \<and> bc_stateFile c' = bc_stateFile c
                                 else
                                   r = Inr \<lparr>r_txHash = tx_hash t,
                                            r_blockNumber = bk_number latest + 1,
                                            r_blockHash =
                                              bk_hash (bc_newBlock latest type data timestamp now),
                                            r_timestamp = timestamp\<rparr>
                                   \<and> bc_stateFile c' = Some (bc_state c')))))
        | _ \<Rightarrow> False))
   \<and> (case srv_getLatestBlock s of
     None \<Rightarrow> srv_addTransaction s type' data' timestamp' now1 now2 f' = (Inl TypeError, s)
   | Some latest \<Rightarrow>
       (case sb_transactions (srv_newBlock latest type' data' timestamp' now1 now2) of
          [t] \<Rightarrow>
            (case srv_addTransaction s type' data' timestamp' now1 now2 f' of
               (r, s') \<Rightarrow>
                 sv_dataDir s' = sv_dataDir s
                 \<and> sb_number (srv_newBlock latest type' data' timestamp' now1 now2)
                     = sb_number latest + 1
                 \<and> sb_prevHash (srv_newBlock latest type' data' timestamp' now1 now2)
                     = sb_hash latest
                 \<and> (if f' = Some 0 then r = Inl StorageError \<and> s' = s
                     else sv_blocks s'
                            = (sv_blocks s)(sb_number latest + 1 \<mapsto>
                                 srv_newBlock latest type' data' timestamp' now1 now2)
                       \<and> (if f' = Some 1 then
                             r = Inl StorageError \<and> sv_txs s' = sv_txs s
                             \<and> sv_state s' = sv_state s \<and> sv_stateFile s' = sv_stateFile s
                           else
                             sv_txs s' = (sv_txs s)(tx_hash t \<mapsto> (t, sb_number latest + 1))
                             \<and> sv_state s'
                                 = (sv_state s)
                                     \<lparr>ss_blockHeight := sb_number latest + 1,
                                      ss_latestHash :=
                                        sb_hash (srv_newBlock latest type' data' timestamp' now1 now2),
                                      ss_totalTx := ss_totalTx (sv_state s) + 1\<rparr>
                             \<and> (if f' = Some 2 then
                                   r = Inl StorageError \<and> sv_stateFile s' = sv_stateFile s
                                 else
                                   r = Inr \<lparr>r_txHash = tx_hash t,
                                            r_blockNumber = sb_number latest + 1,
                                            r_blockHash =
                                              sb_hash (srv_newBlock latest type' data' timestamp'
                                                         now1 now2),
                                            r_timestamp = timestamp'\<rparr>
                                   \<and> sv_stateFile s' = Some (sv_state s')))))
        | _ \<Rightarrow> False))"
  by (rule conjI [OF bc_addTransaction_result srv_addTransaction_result])

text \<open>
  C3 as stated fails: on a fresh chain of \<^verbatim>\<open>blockchain.js\<close>, a call whose write of
  \<open>state.json\<close> throws leaves height 1 and two transactions in the head state in memory,
  where the head state before the call, still the one on disk, has height 0 and one.
\<close>

theorem addTransaction_atomicity_counterexample:
  "case bc_initialize ''./blockchain-data'' Map.empty Map.empty None
          ''2024-01-01T00:00:00.000Z'' None of
     Inl err \<Rightarrow> False
   | Inr c \<Rightarrow>
       (case bc_addTransaction c ''DID_REGISTRATION'' (JObj [(''nik'', JStr ''123'')])
               ''2024-01-01T00:00:01.000Z'' 1704067201000 (Some 2) of
          (Inr rc, c') \<Rightarrow> False
        | (Inl err, c') \<Rightarrow>
            err = StorageError
            \<and> bs_blockHeight (bc_state c) = 0 \<and> bs_totalTransactions (bc_state c) = 1
            \<and> bs_blockHeight (bc_state c') = 1 \<and> bs_totalTransactions (bc_state c') = 2
            \<and> bc_stateFile c' = Some (bc_state c))"
  by (simp add: bc_initialize_def bc_createGenesisBlock_def bc_saveBlock_def
      bc_saveState_def Let_def bc_addTransaction_def bc_getLatestBlock_def bc_getBlock_def)

text \<open>
  The digests of the canonical encoding of one transaction with two nonces one
  millisecond apart, computed by the definitions.
\<close>

lemma canon_1000:
  "sha256 (stringify (JObj
     [(''type'', JStr ''DID_REGISTRATION''), (''data'', JObj [(''nik'', JStr ''123'')]),
      (''timestamp'', JStr ''2024-01-01T00:00:01.000Z''), (''nonce'', JNum 1704067201000)]))
   = ''c27d57276b08c18b2226b271296e31b74e6b7cf03ca7e533223fdbb7f0ab4054''"
  by code_simp

lemma canon_1001:
  "sha256 (stringify (JObj
     [(''type'', JStr ''DID_REGISTRATION''), (''data'', JObj [(''nik'', JStr ''123'')]),
      (''timestamp'', JStr ''2024-01-01T00:00:01.000Z''), (''nonce'', JNum 1704067201001)]))
   = ''7727db2220c14429a5a62ba92eba6c14dbaf6ce9051f717e6f530c381ef2c8b4''"
  by code_simp

text \<open>
  C4, the failing input. \<open>addTransaction\<close> of \<^verbatim>\<open>server.js\<close> on a fresh chain, with
  the clock moving from 1704067201000 to 1704067201001 between its two \<open>Date.now()\<close>:
  the stored transaction has the nonce 1704067201000, and its stored hash is the digest
  of the encoding with the nonce 1704067201001, not the digest of the canonical encoding
  of its stored fields.
\<close>

theorem srv_addTransaction_nonce_mismatch:
  "case srv_new ''./blockchain-data'' Map.empty Map.empty None
          ''2024-01-01T00:00:00.000Z'' 1704067200000 None of
     Inl err \<Rightarrow> False
   | Inr s \<Rightarrow>
       (case srv_addTransaction s ''DID_REGISTRATION'' (JObj [(''nik'', JStr ''123'')])
               ''2024-01-01T00:00:01.000Z'' 1704067201000 1704067201001 None of
          (Inl err, s') \<Rightarrow> False
        | (Inr rc, s') \<Rightarrow>
            (case srv_getBlock s' (r_blockNumber rc) of
               None \<Rightarrow> False
             | Some b \<Rightarrow>
                 (case sb_transactions b of
                    [t] \<Rightarrow>
                      tx_nonce t = Some 1704067201000
                      \<and> tx_hash t = r_txHash rc
                      \<and> tx_hash t
                          = ''7727db2220c14429a5a62ba92eba6c14dbaf6ce9051f717e6f530c381ef2c8b4''
                      \<and> sha256 (stringify (JObj
                            [(''type'', JStr (tx_type t)), (''data'', tx_data t),
                             (''timestamp'', JStr (tx_timestamp t)),
                             (''nonce'', JNum 1704067201000)]))
                          = ''c27d57276b08c18b2226b271296e31b74e6b7cf03ca7e533223fdbb7f0ab4054''
                      \<and> tx_hash t
                          \<noteq> sha256 (stringify (JObj
                              [(''type'', JStr (tx_type t)), (''data'', tx_data t),
                               (''timestamp'', JStr (tx_timestamp t)),
                               (''nonce'', JNum 1704067201000)]))
                  | _ \<Rightarrow> False)))"
  by (simp add: srv_new_def srv_createGenesisBlock_def srv_saveBlock_def
      srv_saveState_def Let_def srv_addTransaction_def srv_getLatestBlock_def srv_getBlock_def
      canon_1000 canon_1001 del: stringify.simps)

section \<open>Chains reached from a fresh directory\<close>

lemma bc_genesisBlock_ok:
  "bc_block_ok (bc_genesisBlock ts) \<and> bk_number (bc_genesisBlock ts) = 0"
  by (simp add: bc_block_ok_def bc_genesisBlock_def Let_def bc_calculateBlockHash_def
      bc_calculateTransactionHash_def)

lemma bc_newBlock_ok:
  "bc_block_ok (bc_newBlock latest type data timestamp now)
   \<and> bk_number (bc_newBlock latest type data timestamp now) = bk_number latest + 1
   \<and> bk_previousHash (bc_newBlock latest type data timestamp now) = bk_hash latest"
  by (simp add: bc_block_ok_def bc_newBlock_def Let_def bc_calculateBlockHash_def
      bc_calculateTransactionHash_def)

lemma bc_initialize_effect:
  assumes "bc_initialize dataDir blockFiles txFiles None now f = Inr c"
  shows "bc_blocks c = blockFiles(0 \<mapsto> bc_genesisBlock now)
       \<and> bs_blockHeight (bc_state c) = 0 \<and> bs_totalTransactions (bc_state c) = 1
       \<and> bs_latestBlockHash (bc_state c) = bk_hash (bc_genesisBlock now)"
  using assms
  by (auto simp: bc_initialize_def bc_createGenesisBlock_def bc_saveBlock_def
      bc_saveState_def Let_def bc_genesisBlock_def split: if_splits)

lemma bc_addTransaction_effect:
  assumes "bc_getLatestBlock c = Some latest"
    and "bc_addTransaction c type data timestamp now f = (r, c')"
  shows "(bc_blocks c' = bc_blocks c \<and> bc_state c' = bc_state c \<and> isl r)
       \<or> (bc_blocks c' = (bc_blocks c)(bk_number latest + 1 \<mapsto> bc_newBlock latest type data timestamp now)
          \<and> (bs_blockHeight (bc_state c') = bs_blockHeight (bc_state c) \<and> isl r
              \<or> bs_blockHeight (bc_state c') = bk_number latest + 1))"
  using assms
  by (auto simp: bc_addTransaction_def bc_saveBlock_def bc_saveState_def Let_def
      bc_newBlock_def split: if_splits)

lemma bc_addTransaction_missing:
  assumes "bc_getLatestBlock c = None"
  shows "bc_addTransaction c type data timestamp now f = (Inl TypeError, c)"
  using assms by (simp add: bc_addTransaction_def Let_def)

lemma bc_inv_init:
  assumes "bc_initialize dataDir Map.empty Map.empty None now f = Inr c"
  shows "bc_inv c \<and> bc_tight c \<and> bs_blockHeight (bc_state c) = 0"
proof -
  from bc_initialize_effect [OF assms]
  have m: "bc_blocks c = Map.empty(0 \<mapsto> bc_genesisBlock now)"
    and h: "bs_blockHeight (bc_state c) = 0"
    by simp_all
  have k0: "k = 0" if "bc_blocks c k \<noteq> None" for k
    using that by (simp add: m split: if_splits)
  have "bc_inv c"
    unfolding bc_inv_def
  proof (intro conjI allI impI)
    show "0 \<le> bs_blockHeight (bc_state c)" by (simp add: h)
  next
    fix k assume "bc_blocks c k \<noteq> None"
    from k0 [OF this] show "0 \<le> k" "k \<le> bs_blockHeight (bc_state c) + 1" by (simp_all add: h)
  next
    fix k assume "0 \<le> k \<and> k \<le> bs_blockHeight (bc_state c)"
    then have "k = 0" by (simp add: h)
    then show "bc_blocks c k \<noteq> None" by (simp add: m)
  next
    fix k b assume b: "bc_blocks c k = Some b"
    then have k: "k = 0" using k0 [of k] by simp
    with b have bg: "b = bc_genesisBlock now" by (simp add: m)
    from bg bc_genesisBlock_ok [of now] k show "bk_number b = k" "bc_block_ok b" by simp_all
    assume "0 < k"
    with k show "\<exists>p. bc_blocks c (k - 1) = Some p \<and> bk_previousHash b = bk_hash p" by simp
  qed
  moreover have "bc_tight c"
    unfolding bc_tight_def using k0 h by auto
  ultimately show ?thesis using h by simp
qed

lemma bc_inv_step:
  assumes inv: "bc_inv c" and step: "bc_addTransaction c type data timestamp now f = (r, c')"
  shows "bc_inv c'"
proof (cases "bc_getLatestBlock c")
  case None
  with step inv show ?thesis by (simp add: bc_addTransaction_missing)
next
  case (Some latest)
  let ?h = "bs_blockHeight (bc_state c)"
  let ?nb = "bc_newBlock latest type data timestamp now"
  from Some have l: "bc_blocks c ?h = Some latest"
    by (simp add: bc_getLatestBlock_def bc_getBlock_def)
  from inv l have n: "bk_number latest = ?h" by (simp add: bc_inv_def)
  from inv have h0: "0 \<le> ?h" by (simp add: bc_inv_def)
  from inv have up: "\<And>k. bc_blocks c k \<noteq> None \<Longrightarrow> 0 \<le> k \<and> k \<le> ?h + 1"
    and down: "\<And>k. 0 \<le> k \<Longrightarrow> k \<le> ?h \<Longrightarrow> bc_blocks c k \<noteq> None"
    and ok: "\<And>k b. bc_blocks c k = Some b \<Longrightarrow>
          bk_number b = k \<and> bc_block_ok b
        \<and> (0 < k \<longrightarrow> (\<exists>p. bc_blocks c (k - 1) = Some p \<and> bk_previousHash b = bk_hash p))"
    by (simp_all add: bc_inv_def)
  from bc_addTransaction_effect [OF Some step] show ?thesis
  proof
    assume same: "bc_blocks c' = bc_blocks c \<and> bc_state c' = bc_state c \<and> isl r"
    with inv show ?thesis by (simp add: bc_inv_def)
  next
    assume "bc_blocks c' = (bc_blocks c)(bk_number latest + 1 \<mapsto> ?nb)
          \<and> (bs_blockHeight (bc_state c') = ?h \<and> isl r
              \<or> bs_blockHeight (bc_state c') = bk_number latest + 1)"
    with n have m': "bc_blocks c' = (bc_blocks c)(?h + 1 \<mapsto> ?nb)"
      and h': "bs_blockHeight (bc_state c') = ?h \<or> bs_blockHeight (bc_state c') = ?h + 1"
      by auto
    note nb = bc_newBlock_ok [of latest type data timestamp now]
    have 1: "0 \<le> bs_blockHeight (bc_state c')" using h' h0 by auto
    have 2: "0 \<le> k \<and> k \<le> bs_blockHeight (bc_state c') + 1" if "bc_blocks c' k \<noteq> None" for k
      using that up [of k] h' h0 by (auto simp: m' split: if_splits)
    have 3: "bc_blocks c' k \<noteq> None" if "0 \<le> k" "k \<le> bs_blockHeight (bc_state c')" for k
      using that down [of k] h' by (auto simp: m')
    have 4: "bk_number b = k \<and> bc_block_ok b
        \<and> (0 < k \<longrightarrow> (\<exists>p. bc_blocks c' (k - 1) = Some p \<and> bk_previousHash b = bk_hash p))"
      if b: "bc_blocks c' k = Some b" for k b
    proof (cases "k = ?h + 1")
      case True
      with b have "b = ?nb" by (simp add: m')
      with True nb n l show ?thesis by (simp add: m')
    next
      case False
      with b have old: "bc_blocks c k = Some b" by (simp add: m')
      from up [of k] old have "k \<le> ?h + 1" by simp
      with False have "k - 1 \<noteq> ?h + 1" by simp
      with ok [OF old] show ?thesis by (simp add: m')
    qed
    show ?thesis
      unfolding bc_inv_def using 1 2 3 4 by blast
  qed
qed

lemma bc_run_inv:
  "bc_inv c \<Longrightarrow> bc_run c calls = (results, c') \<Longrightarrow> bc_inv c'"
proof (induction calls arbitrary: c results c')
  case Nil
  then show ?case by simp
next
  case (Cons x xs)
  obtain r c1 where s: "bc_call c x = (r, c1)" by (cases "bc_call c x")
  obtain rs c2 where t: "bc_run c1 xs = (rs, c2)" by (cases "bc_run c1 xs")
  from s have "bc_inv c1"
    using bc_inv_step [OF Cons.prems(1)] by (simp add: bc_call_def)
  from Cons.IH [OF this t] Cons.prems(2) s t show ?case by simp
qed

lemma bc_tight_step:
  assumes inv: "bc_inv c" and tight: "bc_tight c"
    and step: "bc_addTransaction c type data timestamp now f = (r, c')" and ok: "\<not> isl r"
  shows "bc_tight c' \<and> bs_blockHeight (bc_state c') = bs_blockHeight (bc_state c) + 1"
proof (cases "bc_getLatestBlock c")
  case None
  with step ok show ?thesis by (auto simp: bc_addTransaction_missing)
next
  case (Some latest)
  then have l: "bc_blocks c (bs_blockHeight (bc_state c)) = Some latest"
    by (simp add: bc_getLatestBlock_def bc_getBlock_def)
  from inv l have n: "bk_number latest = bs_blockHeight (bc_state c)" by (simp add: bc_inv_def)
  from bc_addTransaction_effect [OF Some step] ok tight n show ?thesis
    by (auto simp: bc_tight_def)
qed

lemma bc_run_tight:
  "bc_inv c \<Longrightarrow> bc_tight c \<Longrightarrow> bc_run c calls = (results, c') \<Longrightarrow> \<forall>r\<in>set results. \<not> isl r
   \<Longrightarrow> bc_tight c' \<and> bs_blockHeight (bc_state c') = bs_blockHeight (bc_state c) + int (length calls)"
proof (induction calls arbitrary: c results c')
  case Nil
  then show ?case by simp
next
  case (Cons x xs)
  obtain r c1 where s: "bc_call c x = (r, c1)" by (cases "bc_call c x")
  obtain rs c2 where t: "bc_run c1 xs = (rs, c2)" by (cases "bc_run c1 xs")
  from Cons.prems(3) s t have res: "results = r # rs" "c' = c2" by simp_all
  with Cons.prems(4) have okr: "\<not> isl r" and okrs: "\<forall>r\<in>set rs. \<not> isl r" by simp_all
  from s have s': "bc_addTransaction c (c_type x) (c_data x) (c_timestamp x) (c_now x) (c_fault x) = (r, c1)"
    by (simp add: bc_call_def)
  have i1: "bc_inv c1" by (rule bc_inv_step [OF Cons.prems(1) s'])
  from bc_tight_step [OF Cons.prems(1,2) s' okr]
  have t1: "bc_tight c1" and h1: "bs_blockHeight (bc_state c1) = bs_blockHeight (bc_state c) + 1"
    by simp_all
  from Cons.IH [OF i1 t1 t okrs] h1 res show ?case by simp
qed

lemma bc_dom:
  assumes "bc_inv c" and "bc_tight c"
  shows "dom (bc_blocks c) = {0..bs_blockHeight (bc_state c)}"
proof -
  from assms(1) have up: "\<And>k. bc_blocks c k \<noteq> None \<Longrightarrow> 0 \<le> k"
    and down: "\<And>k. 0 \<le> k \<Longrightarrow> k \<le> bs_blockHeight (bc_state c) \<Longrightarrow> bc_blocks c k \<noteq> None"
    by (simp_all add: bc_inv_def)
  from assms(2) have top: "\<And>k. bc_blocks c k \<noteq> None \<Longrightarrow> k \<le> bs_blockHeight (bc_state c)"
    by (simp add: bc_tight_def)
  show ?thesis
  proof (intro equalityI subsetI)
    fix k assume "k \<in> dom (bc_blocks c)"
    then have "bc_blocks c k \<noteq> None" by (simp add: dom_def)
    with up top show "k \<in> {0..bs_blockHeight (bc_state c)}" by simp
  next
    fix k assume "k \<in> {0..bs_blockHeight (bc_state c)}"
    with down [of k] show "k \<in> dom (bc_blocks c)" by (simp add: dom_def)
  qed
qed

lemma srv_genesisBlock_ok:
  "srv_block_ok (srv_genesisBlock isoNow now) \<and> sb_number (srv_genesisBlock isoNow now) = 0"
  by (simp add: srv_block_ok_def srv_genesisBlock_def Let_def srv_calculateBlockHash_def)

lemma srv_newBlock_ok:
  "srv_block_ok (srv_newBlock latest type data timestamp now1 now2)
   \<and> sb_number (srv_newBlock latest type data timestamp now1 now2) = sb_number latest + 1
   \<and> sb_prevHash (srv_newBlock latest type data timestamp now1 now2) = sb_hash latest"
  by (simp add: srv_block_ok_def srv_newBlock_def Let_def srv_calculateBlockHash_def)

lemma srv_new_effect:
  assumes "srv_new dataDir blockFiles txFiles None isoNow now f = Inr c"
  shows "sv_blocks c = blockFiles(0 \<mapsto> srv_genesisBlock isoNow now)
       \<and> ss_blockHeight (sv_state c) = 0 \<and> ss_totalTx (sv_state c) = 1
       \<and> ss_latestHash (sv_state c) = sb_hash (srv_genesisBlock isoNow now)"
  using assms
  by (auto simp: srv_new_def srv_createGenesisBlock_def srv_saveBlock_def
      srv_saveState_def Let_def srv_genesisBlock_def split: if_splits)

lemma srv_addTransaction_effect:
  assumes "srv_getLatestBlock c = Some latest"
    and "srv_addTransaction c type data timestamp now1 now2 f = (r, c')"
  shows "(sv_blocks c' = sv_blocks c \<and> sv_state c' = sv_state c \<and> isl r)
       \<or> (sv_blocks c' = (sv_blocks c)(sb_number latest + 1 \<mapsto> srv_newBlock latest type data timestamp now1 now2)
          \<and> (ss_blockHeight (sv_state c') = ss_blockHeight (sv_state c) \<and> isl r
              \<or> ss_blockHeight (sv_state c') = sb_number latest + 1))"
  using assms
  by (auto simp: srv_addTransaction_def srv_saveBlock_def srv_saveState_def Let_def
      srv_newBlock_def split: if_splits)

lemma srv_addTransaction_missing:
  assumes "srv_getLatestBlock c = None"
  shows "srv_addTransaction c type data timestamp now1 now2 f = (Inl TypeError, c)"
  using assms by (simp add: srv_addTransaction_def Let_def)

lemma srv_inv_init:
  assumes "srv_new dataDir Map.empty Map.empty None isoNow now f = Inr c"
  shows "srv_inv c \<and> srv_tight c \<and> ss_blockHeight (sv_state c) = 0"
proof -
  from srv_new_effect [OF assms]
  have m: "sv_blocks c = Map.empty(0 \<mapsto> srv_genesisBlock isoNow now)"
    and h: "ss_blockHeight (sv_state c) = 0"
    by simp_all
  have k0: "k = 0" if "sv_blocks c k \<noteq> None" for k
    using that by (simp add: m split: if_splits)
  have "srv_inv c"
    unfolding srv_inv_def
  proof (intro conjI allI impI)
    show "0 \<le> ss_blockHeight (sv_state c)" by (simp add: h)
  next
    fix k assume "sv_blocks c k \<noteq> None"
    from k0 [OF this] show "0 \<le> k" "k \<le> ss_blockHeight (sv_state c) + 1" by (simp_all add: h)
  next
    fix k assume "0 \<le> k \<and> k \<le> ss_blockHeight (sv_state c)"
    then have "k = 0" by (simp add: h)
    then show "sv_blocks c k \<noteq> None" by (simp add: m)
  next
    fix k b assume b: "sv_blocks c k = Some b"
    then have k: "k = 0" using k0 [of k] by simp
    with b have bg: "b = srv_genesisBlock isoNow now" by (simp add: m)
    from bg srv_genesisBlock_ok [of isoNow now] k show "sb_number b = k" "srv_block_ok b" by simp_all
    assume "0 < k"
    with k show "\<exists>p. sv_blocks c (k - 1) = Some p \<and> sb_prevHash b = sb_hash p" by simp
  qed
  moreover have "srv_tight c"
    unfolding srv_tight_def using k0 h by auto
  ultimately show ?thesis using h by simp
qed

lemma srv_inv_step:
  assumes inv: "srv_inv c" and step: "srv_addTransaction c type data timestamp now1 now2 f = (r, c')"
  shows "srv_inv c'"
proof (cases "srv_getLatestBlock c")
  case None
  with step inv show ?thesis by (simp add: srv_addTransaction_missing)
next
  case (Some latest)
  let ?h = "ss_blockHeight (sv_state c)"
  let ?nb = "srv_newBlock latest type data timestamp now1 now2"
  from Some have l: "sv_blocks c ?h = Some latest"
    by (simp add: srv_getLatestBlock_def srv_getBlock_def)
  from inv l have n: "sb_number latest = ?h" by (simp add: srv_inv_def)
  from inv have h0: "0 \<le> ?h" by (simp add: srv_inv_def)
  from inv have up: "\<And>k. sv_blocks c k \<noteq> None \<Longrightarrow> 0 \<le> k \<and> k \<le> ?h + 1"
    and down: "\<And>k. 0 \<le> k \<Longrightarrow> k \<le> ?h \<Longrightarrow> sv_blocks c k \<noteq> None"
    and ok: "\<And>k b. sv_blocks c k = Some b \<Longrightarrow>
          sb_number b = k \<and> srv_block_ok b
        \<and> (0 < k \<longrightarrow> (\<exists>p. sv_blocks c (k - 1) = Some p \<and> sb_prevHash b = sb_hash p))"
    by (simp_all add: srv_inv_def)
  from srv_addTransaction_effect [OF Some step] show ?thesis
  proof
    assume same: "sv_blocks c' = sv_blocks c \<and> sv_state c' = sv_state c \<and> isl r"
    with inv show ?thesis by (simp add: srv_inv_def)
  next
    assume "sv_blocks c' = (sv_blocks c)(sb_number latest + 1 \<mapsto> ?nb)
          \<and> (ss_blockHeight (sv_state c') = ?h \<and> isl r
              \<or> ss_blockHeight (sv_state c') = sb_number latest + 1)"
    with n have m': "sv_blocks c' = (sv_blocks c)(?h + 1 \<mapsto> ?nb)"
      and h': "ss_blockHeight (sv_state c') = ?h \<or> ss_blockHeight (sv_state c') = ?h + 1"
      by auto
    note nb = srv_newBlock_ok [of latest type data timestamp now1 now2]
    have 1: "0 \<le> ss_blockHeight (sv_state c')" using h' h0 by auto
    have 2: "0 \<le> k \<and> k \<le> ss_blockHeight (sv_state c') + 1" if "sv_blocks c' k \<noteq> None" for k
      using that up [of k] h' h0 by (auto simp: m' split: if_splits)
    have 3: "sv_blocks c' k \<noteq> None" if "0 \<le> k" "k \<le> ss_blockHeight (sv_state c')" for k
      using that down [of k] h' by (auto simp: m')
    have 4: "sb_number b = k \<and> srv_block_ok b
        \<and> (0 < k \<longrightarrow> (\<exists>p. sv_blocks c' (k - 1) = Some p \<and> sb_prevHash b = sb_hash p))"
      if b: "sv_blocks c' k = Some b" for k b
    proof (cases "k = ?h + 1")
      case True
      with b have "b = ?nb" by (simp add: m')
      with True nb n l show ?thesis by (simp add: m')
    next
      case False
      with b have old: "sv_blocks c k = Some b" by (simp add: m')
      from up [of k] old have "k \<le> ?h + 1" by simp
      with False have "k - 1 \<noteq> ?h + 1" by simp
      with ok [OF old] show ?thesis by (simp add: m')
    qed
    show ?thesis
      unfolding srv_inv_def using 1 2 3 4 by blast
  qed
qed

lemma srv_run_inv:
  "srv_inv c \<Longrightarrow> srv_run c calls = (results, c') \<Longrightarrow> srv_inv c'"
proof (induction calls arbitrary: c results c')
  case Nil
  then show ?case by simp
next
  case (Cons x xs)
  obtain r c1 where s: "srv_call c x = (r, c1)" by (cases "srv_call c x")
  obtain rs c2 where t: "srv_run c1 xs = (rs, c2)" by (cases "srv_run c1 xs")
  from s have "srv_inv c1"
    using srv_inv_step [OF Cons.prems(1)] by (simp add: srv_call_def)
  from Cons.IH [OF this t] Cons.prems(2) s t show ?case by simp
qed

lemma srv_tight_step:
  assumes inv: "srv_inv c" and tight: "srv_tight c"
    and step: "srv_addTransaction c type data timestamp now1 now2 f = (r, c')" and ok: "\<not> isl r"
  shows "srv_tight c' \<and> ss_blockHeight (sv_state c') = ss_blockHeight (sv_state c) + 1"
proof (cases "srv_getLatestBlock c")
  case None
  with step ok show ?thesis by (auto simp: srv_addTransaction_missing)
next
  case (Some latest)
  then have l: "sv_blocks c (ss_blockHeight (sv_state c)) = Some latest"
    by (simp add: srv_getLatestBlock_def srv_getBlock_def)
  from inv l have n: "sb_number latest = ss_blockHeight (sv_state c)" by (simp add: srv_inv_def)
  from srv_addTransaction_effect [OF Some step] ok tight n show ?thesis
    by (auto simp: srv_tight_def)
qed

lemma srv_run_tight:
  "srv_inv c \<Longrightarrow> srv_tight c \<Longrightarrow> srv_run c calls = (results, c') \<Longrightarrow> \<forall>r\<in>set results. \<not> isl r
   \<Longrightarrow> srv_tight c' \<and> ss_blockHeight (sv_state c') = ss_blockHeight (sv_state c) + int (length calls)"
proof (induction calls arbitrary: c results c')
  case Nil
  then show ?case by simp
next
  case (Cons x xs)
  obtain r c1 where s: "srv_call c x = (r, c1)" by (cases "srv_call c x")
  obtain rs c2 where t: "srv_run c1 xs = (rs, c2)" by (cases "srv_run c1 xs")
  from Cons.prems(3) s t have res: "results = r # rs" "c' = c2" by simp_all
  with Cons.prems(4) have okr: "\<not> isl r" and okrs: "\<forall>r\<in>set rs. \<not> isl r" by simp_all
  from s have s': "srv_addTransaction c (c_type x) (c_data x) (c_timestamp x) (c_now x) (c_now2 x) (c_fault x) = (r, c1)"
    by (simp add: srv_call_def)
  have i1: "srv_inv c1" by (rule srv_inv_step [OF Cons.prems(1) s'])
  from srv_tight_step [OF Cons.prems(1,2) s' okr]
  have t1: "srv_tight c1" and h1: "ss_blockHeight (sv_state c1) = ss_blockHeight (sv_state c) + 1"
    by simp_all
  from Cons.IH [OF i1 t1 t okrs] h1 res show ?case by simp
qed

lemma srv_dom:
  assumes "srv_inv c" and "srv_tight c"
  shows "dom (sv_blocks c) = {0..ss_blockHeight (sv_state c)}"
proof -
  from assms(1) have up: "\<And>k. sv_blocks c k \<noteq> None \<Longrightarrow> 0 \<le> k"
    and down: "\<And>k. 0 \<le> k \<Longrightarrow> k \<le> ss_blockHeight (sv_state c) \<Longrightarrow> sv_blocks c k \<noteq> None"
    by (simp_all add: srv_inv_def)
  from assms(2) have top: "\<And>k. sv_blocks c k \<noteq> None \<Longrightarrow> k \<le> ss_blockHeight (sv_state c)"
    by (simp add: srv_tight_def)
  show ?thesis
  proof (intro equalityI subsetI)
    fix k assume "k \<in> dom (sv_blocks c)"
    then have "sv_blocks c k \<noteq> None" by (simp add: dom_def)
    with up top show "k \<in> {0..ss_blockHeight (sv_state c)}" by simp
  next
    fix k assume "k \<in> {0..ss_blockHeight (sv_state c)}"
    with down [of k] show "k \<in> dom (sv_blocks c)" by (simp add: dom_def)
  qed
qed

lemma bc_initialize_returns:
  "\<exists>c. bc_initialize dataDir blockFiles txFiles None now None = Inr c"
  by (simp add: bc_initialize_def bc_createGenesisBlock_def bc_saveBlock_def bc_saveState_def
      Let_def)

lemma srv_new_returns:
  "\<exists>c. srv_new dataDir blockFiles txFiles None isoNow now None = Inr c"
  by (simp add: srv_new_def srv_createGenesisBlock_def srv_saveBlock_def srv_saveState_def
      Let_def)

lemma bc_addTransaction_no_fault:
  "bc_getLatestBlock c = Some latest
   \<Longrightarrow> \<not> isl (fst (bc_addTransaction c type data timestamp now None))"
  by (simp add: bc_addTransaction_def bc_saveBlock_def bc_saveState_def Let_def)

lemma srv_addTransaction_no_fault:
  "srv_getLatestBlock c = Some latest
   \<Longrightarrow> \<not> isl (fst (srv_addTransaction c type data timestamp now1 now2 None))"
  by (simp add: srv_addTransaction_def srv_saveBlock_def srv_saveState_def Let_def)

lemma bc_inv_latest: "bc_inv c \<Longrightarrow> \<exists>latest. bc_getLatestBlock c = Some latest"
  by (auto simp: bc_inv_def bc_getLatestBlock_def bc_getBlock_def)

lemma srv_inv_latest: "srv_inv c \<Longrightarrow> \<exists>latest. srv_getLatestBlock c = Some latest"
  by (auto simp: srv_inv_def srv_getLatestBlock_def srv_getBlock_def)

lemma bc_run_no_fault:
  "bc_inv c \<Longrightarrow> \<forall>x\<in>set calls. c_fault x = None \<Longrightarrow> bc_run c calls = (results, c')
   \<Longrightarrow> \<forall>r\<in>set results. \<not> isl r"
proof (induction calls arbitrary: c results c')
  case Nil
  then show ?case by simp
next
  case (Cons x xs)
  obtain r c1 where s: "bc_call c x = (r, c1)" by (cases "bc_call c x")
  obtain rs c2 where t: "bc_run c1 xs = (rs, c2)" by (cases "bc_run c1 xs")
  from Cons.prems(3) s t have res: "results = r # rs" by simp
  from Cons.prems(2) have f: "c_fault x = None" and fs: "\<forall>x\<in>set xs. c_fault x = None"
    by simp_all
  from s have s': "bc_addTransaction c (c_type x) (c_data x) (c_timestamp x) (c_now x) (c_fault x) = (r, c1)"
    by (simp add: bc_call_def)
  from bc_inv_latest [OF Cons.prems(1)] obtain latest where "bc_getLatestBlock c = Some latest" ..
  from bc_addTransaction_no_fault [OF this, of "c_type x" "c_data x" "c_timestamp x" "c_now x"] s' f
  have okr: "\<not> isl r" by simp
  have "bc_inv c1" by (rule bc_inv_step [OF Cons.prems(1) s'])
  from Cons.IH [OF this fs t] okr res show ?case by simp
qed

lemma srv_run_no_fault:
  "srv_inv c \<Longrightarrow> \<forall>x\<in>set calls. c_fault x = None \<Longrightarrow> srv_run c calls = (results, c')
   \<Longrightarrow> \<forall>r\<in>set results. \<not> isl r"
proof (induction calls arbitrary: c results c')
  case Nil
  then show ?case by simp
next
  case (Cons x xs)
  obtain r c1 where s: "srv_call c x = (r, c1)" by (cases "srv_call c x")
  obtain rs c2 where t: "srv_run c1 xs = (rs, c2)" by (cases "srv_run c1 xs")
  from Cons.prems(3) s t have res: "results = r # rs" by simp
  from Cons.prems(2) have f: "c_fault x = None" and fs: "\<forall>x\<in>set xs. c_fault x = None"
    by simp_all
  from s have s': "srv_addTransaction c (c_type x) (c_data x) (c_timestamp x) (c_now x) (c_now2 x) (c_fault x) = (r, c1)"
    by (simp add: srv_call_def)
  from srv_inv_latest [OF Cons.prems(1)] obtain latest where "srv_getLatestBlock c = Some latest" ..
  from srv_addTransaction_no_fault [OF this, of "c_type x" "c_data x" "c_timestamp x" "c_now x" "c_now2 x"] s' f
  have okr: "\<not> isl r" by simp
  have "srv_inv c1" by (rule srv_inv_step [OF Cons.prems(1) s'])
  from Cons.IH [OF this fs t] okr res show ?case by simp
qed

lemma bc_fresh_run:
  assumes i: "bc_initialize dataDir Map.empty Map.empty None now f = Inr c0"
    and r: "bc_run c0 calls = (results, c)" and ok: "\<forall>r\<in>set results. \<not> isl r"
  shows "bs_blockHeight (bc_state c) = int (length calls)
       \<and> dom (bc_blocks c) = {0..int (length calls)}"
proof -
  from bc_inv_init [OF i] have i0: "bc_inv c0" and t0: "bc_tight c0"
    and h0: "bs_blockHeight (bc_state c0) = 0" by simp_all
  from bc_run_tight [OF i0 t0 r ok] h0
  have t: "bc_tight c" and h: "bs_blockHeight (bc_state c) = int (length calls)" by simp_all
  have "bc_inv c" by (rule bc_run_inv [OF i0 r])
  from bc_dom [OF this t] h show ?thesis by simp
qed

text \<open>
  In \<^verbatim>\<open>blockchain.js\<close> the hash of every stored transaction is the digest of the
  encoding of its stored type, data, timestamp and nonce.
\<close>

lemma bc_stored_transaction_hash:
  assumes i: "bc_initialize dataDir Map.empty Map.empty None now f = Inr c0"
    and r: "bc_run c0 calls = (results, c)" and b: "bc_getBlock c k = Some b"
    and t: "t \<in> set (bk_transactions b)"
  shows "\<exists>n. tx_nonce t = Some n
           \<and> tx_hash t = sha256 (stringify (JObj
                [(''type'', JStr (tx_type t)), (''data'', tx_data t),
                 (''timestamp'', JStr (tx_timestamp t)), (''nonce'', JNum n)]))"
proof -
  have "bc_inv c" using bc_run_inv [OF _ r] bc_inv_init [OF i] by simp
  with b have "bc_block_ok b" by (simp add: bc_inv_def bc_getBlock_def)
  with t have n: "tx_nonce t \<noteq> None" and h: "tx_hash t = bc_calculateTransactionHash t"
    by (simp_all add: bc_block_ok_def list_all_iff)
  from n obtain n where "tx_nonce t = Some n" by auto
  with h show ?thesis by (auto simp: bc_calculateTransactionHash_def simp del: stringify.simps)
qed

lemma srv_fresh_run:
  assumes i: "srv_new dataDir Map.empty Map.empty None isoNow now f = Inr c0"
    and r: "srv_run c0 calls = (results, c)" and ok: "\<forall>r\<in>set results. \<not> isl r"
  shows "ss_blockHeight (sv_state c) = int (length calls)
       \<and> dom (sv_blocks c) = {0..int (length calls)}"
proof -
  from srv_inv_init [OF i] have i0: "srv_inv c0" and t0: "srv_tight c0"
    and h0: "ss_blockHeight (sv_state c0) = 0" by simp_all
  from srv_run_tight [OF i0 t0 r ok] h0
  have t: "srv_tight c" and h: "ss_blockHeight (sv_state c) = int (length calls)" by simp_all
  have "srv_inv c" by (rule srv_run_inv [OF i0 r])
  from srv_dom [OF this t] h show ?thesis by simp
qed

text \<open>
  C9. After any finite sequence of successful \<open>addTransaction\<close> calls on a chain
  freshly initialised in an empty directory, \<open>getStats().totalBlocks\<close> is the head
  height + 1, which is the number of calls + 1, and the block files are exactly those
  numbered 0 to the number of calls: each successful call advances the height by one
  and creates one block. Both classes.
\<close>

theorem appends_count:
  "(bc_initialize dataDir Map.empty Map.empty None now f = Inr c0 \<longrightarrow>
    bc_run c0 calls = (results, c) \<longrightarrow> (\<forall>r\<in>set results. \<not> isl r) \<longrightarrow>
      st_totalBlocks (bc_getStats c) = bs_blockHeight (bc_state c) + 1
    \<and> bs_blockHeight (bc_state c) + 1 = int (length calls) + 1
    \<and> dom (bc_blocks c) = {0..int (length calls)})
   \<and> (srv_new dataDir' Map.empty Map.empty None isoNow now' f' = Inr s0 \<longrightarrow>
    srv_run s0 calls' = (results', s) \<longrightarrow> (\<forall>r\<in>set results'. \<not> isl r) \<longrightarrow>
      sst_totalBlocks (srv_getStats s) = ss_blockHeight (sv_state s) + 1
    \<and> ss_blockHeight (sv_state s) + 1 = int (length calls') + 1
    \<and> dom (sv_blocks s) = {0..int (length calls')})"
proof (intro conjI impI)
  assume "bc_initialize dataDir Map.empty Map.empty None now f = Inr c0"
    "bc_run c0 calls = (results, c)" "\<forall>r\<in>set results. \<not> isl r"
  from bc_fresh_run [OF this]
  show "st_totalBlocks (bc_getStats c) = bs_blockHeight (bc_state c) + 1"
    "bs_blockHeight (bc_state c) + 1 = int (length calls) + 1"
    "dom (bc_blocks c) = {0..int (length calls)}"
    by (simp_all add: bc_getStats_def)
next
  assume "srv_new dataDir' Map.empty Map.empty None isoNow now' f' = Inr s0"
    "srv_run s0 calls' = (results', s)" "\<forall>r\<in>set results'. \<not> isl r"
  from srv_fresh_run [OF this]
  show "sst_totalBlocks (srv_getStats s) = ss_blockHeight (sv_state s) + 1"
    "ss_blockHeight (sv_state s) + 1 = int (length calls') + 1"
    "dom (sv_blocks s) = {0..int (length calls')}"
    by (simp_all add: srv_getStats_def Let_def)
qed

theorem appends_count_witness:
  "(case bc_initialize ''./blockchain-data'' Map.empty Map.empty None
           ''2024-01-01T00:00:00.000Z'' None of
      Inl err \<Rightarrow> False
    | Inr c0 \<Rightarrow>
        (case bc_run c0 [call_a, call_b] of
           (results, c) \<Rightarrow>
             list_all (\<lambda>r. \<not> isl r) results
             \<and> st_totalBlocks (bc_getStats c) = 3 \<and> bs_blockHeight (bc_state c) = 2
             \<and> dom (bc_blocks c) = {0..2}))
   \<and> (case srv_new ''./blockchain-data'' Map.empty Map.empty None
           ''2024-01-01T00:00:00.000Z'' 1704067200000 None of
      Inl err \<Rightarrow> False
    | Inr s0 \<Rightarrow>
        (case srv_run s0 [call_a, call_b] of
           (results, s) \<Rightarrow>
             list_all (\<lambda>r. \<not> isl r) results
             \<and> sst_totalBlocks (srv_getStats s) = 3 \<and> ss_blockHeight (sv_state s) = 2
             \<and> dom (sv_blocks s) = {0..2}))"
proof -
  have nf: "\<forall>x\<in>set [call_a, call_b]. c_fault x = None"
    by (simp add: call_a_def call_b_def)
  obtain c0 where i: "bc_initialize ''./blockchain-data'' Map.empty Map.empty None
           ''2024-01-01T00:00:00.000Z'' None = Inr c0"
    using bc_initialize_returns by blast
  obtain results c where r: "bc_run c0 [call_a, call_b] = (results, c)"
    by (cases "bc_run c0 [call_a, call_b]")
  have ok: "\<forall>r\<in>set results. \<not> isl r"
    using bc_run_no_fault [OF _ nf r] bc_inv_init [OF i] by simp
  obtain s0 where i': "srv_new ''./blockchain-data'' Map.empty Map.empty None
           ''2024-01-01T00:00:00.000Z'' 1704067200000 None = Inr s0"
    using srv_new_returns by blast
  obtain results' s where r': "srv_run s0 [call_a, call_b] = (results', s)"
    by (cases "srv_run s0 [call_a, call_b]")
  have ok': "\<forall>r\<in>set results'. \<not> isl r"
    using srv_run_no_fault [OF _ nf r'] srv_inv_init [OF i'] by simp
  from appends_count [of "''./blockchain-data''" "''2024-01-01T00:00:00.000Z''" None c0
      "[call_a, call_b]" results c "''./blockchain-data''" "''2024-01-01T00:00:00.000Z''"
      1704067200000 None s0 "[call_a, call_b]" results' s]
    i r ok i' r' ok'
  show ?thesis by (simp add: list_all_iff)
qed

section \<open>Chains across restarts\<close>

lemma bc_initialize_stateFile:
  assumes "bc_initialize dataDir blockFiles txFiles None now f = Inr c"
  shows "bc_stateFile c = Some (bc_state c)"
  using assms
  by (auto simp: bc_initialize_def bc_createGenesisBlock_def bc_saveBlock_def
      bc_saveState_def Let_def split: if_splits)

lemma bc_initialize_load:
  "bc_initialize dataDir blockFiles txFiles (Some st) now f =
     Inr \<lparr>bc_dataDir = dataDir, bc_state = st, bc_blocks = blockFiles,
          bc_txs = txFiles, bc_stateFile = Some st\<rparr>"
  by (simp add: bc_initialize_def)

lemma bc_addTransaction_stateFile:
  assumes "bc_addTransaction c type data timestamp now f = (r, c')"
  shows "bc_stateFile c' = bc_stateFile c \<or> bc_stateFile c' = Some (bc_state c')"
  using assms
  by (auto simp: bc_addTransaction_def bc_saveBlock_def bc_saveState_def Let_def
      split: if_splits option.splits)

lemma bc_sound_init:
  assumes "bc_initialize dataDir Map.empty Map.empty None now f = Inr c"
  shows "bc_sound c"
proof -
  from bc_inv_init [OF assms] have i: "bc_inv c" by simp
  from bc_initialize_stateFile [OF assms] have s: "bc_stateFile c = Some (bc_state c)" .
  from i have h0: "0 \<le> bs_blockHeight (bc_state c)"
    and down: "\<And>k. 0 \<le> k \<Longrightarrow> k \<le> bs_blockHeight (bc_state c) \<Longrightarrow> bc_blocks c k \<noteq> None"
    and ok: "\<And>k b. bc_blocks c k = Some b \<Longrightarrow>
          bk_number b = k \<and> bc_block_ok b
        \<and> (0 < k \<longrightarrow> (\<exists>p. bc_blocks c (k - 1) = Some p \<and> bk_previousHash b = bk_hash p))"
    by (simp_all add: bc_inv_def)
  show ?thesis
    unfolding bc_sound_def using h0 down ok s by auto
qed

lemma bc_sound_step:
  assumes inv: "bc_sound c" and step: "bc_addTransaction c type data timestamp now f = (r, c')"
  shows "bc_sound c'"
proof (cases "bc_getLatestBlock c")
  case None
  with step inv show ?thesis by (simp add: bc_addTransaction_missing)
next
  case (Some latest)
  let ?h = "bs_blockHeight (bc_state c)"
  let ?nb = "bc_newBlock latest type data timestamp now"
  from Some have l: "bc_blocks c ?h = Some latest"
    by (simp add: bc_getLatestBlock_def bc_getBlock_def)
  from inv l have n: "bk_number latest = ?h" by (simp add: bc_sound_def)
  from inv have h0: "0 \<le> ?h" by (simp add: bc_sound_def)
  from inv have down: "\<And>k. 0 \<le> k \<Longrightarrow> k \<le> ?h \<Longrightarrow> bc_blocks c k \<noteq> None"
    and ok: "\<And>k b. bc_blocks c k = Some b \<Longrightarrow> bk_number b = k \<and> bc_block_ok b"
    and link: "\<And>k b. bc_blocks c k = Some b \<Longrightarrow> 0 < k \<Longrightarrow> k \<le> ?h \<Longrightarrow>
          \<exists>p. bc_blocks c (k - 1) = Some p \<and> bk_previousHash b = bk_hash p"
    by (simp_all add: bc_sound_def)
  from inv obtain st where st: "bc_stateFile c = Some st" "0 \<le> bs_blockHeight st"
    "bs_blockHeight st \<le> ?h"
    by (auto simp: bc_sound_def)
  from bc_addTransaction_effect [OF Some step]
  have eff: "(bc_blocks c' = bc_blocks c \<and> bs_blockHeight (bc_state c') = ?h)
      \<or> (bc_blocks c' = (bc_blocks c)(?h + 1 \<mapsto> ?nb)
          \<and> (bs_blockHeight (bc_state c') = ?h \<or> bs_blockHeight (bc_state c') = ?h + 1))"
    using n by auto
  have h': "bs_blockHeight (bc_state c') = ?h \<or> bs_blockHeight (bc_state c') = ?h + 1"
    using eff by auto
  have m: "bc_blocks c' k = bc_blocks c k" if "k \<noteq> ?h + 1" for k
    using eff that by auto
  have top: "bc_blocks c' (?h + 1) = Some ?nb" if "bs_blockHeight (bc_state c') = ?h + 1"
    using eff that by auto
  have new: "b = ?nb \<or> bc_blocks c (?h + 1) = Some b" if "bc_blocks c' (?h + 1) = Some b" for b
    using eff that by auto
  note nb = bc_newBlock_ok [of latest type data timestamp now]
  have 1: "0 \<le> bs_blockHeight (bc_state c')" using h' h0 by auto
  have 2: "bc_blocks c' k \<noteq> None" if k: "0 \<le> k" "k \<le> bs_blockHeight (bc_state c')" for k
  proof (cases "k = ?h + 1")
    case True
    with k h' have "bs_blockHeight (bc_state c') = ?h + 1" by auto
    from top [OF this] True show ?thesis by simp
  next
    case False
    with k h' have "k \<le> ?h" by auto
    with down [of k] k(1) m [OF False] show ?thesis by simp
  qed
  have 3: "bk_number b = k \<and> bc_block_ok b" if b: "bc_blocks c' k = Some b" for k b
  proof (cases "k = ?h + 1")
    case True
    with b new [of b] have "b = ?nb \<or> bc_blocks c k = Some b" by simp
    then show ?thesis using nb n True ok [of k b] by auto
  next
    case False
    with b m [OF False] ok [of k b] show ?thesis by simp
  qed
  have 4: "\<exists>p. bc_blocks c' (k - 1) = Some p \<and> bk_previousHash b = bk_hash p"
    if b: "bc_blocks c' k = Some b" and k: "0 < k" "k \<le> bs_blockHeight (bc_state c')" for k b
  proof (cases "k = ?h + 1")
    case True
    with k h' have "bs_blockHeight (bc_state c') = ?h + 1" by auto
    from top [OF this] b True have "b = ?nb" by simp
    moreover have "bc_blocks c' (k - 1) = Some latest" using True l m [of "k - 1"] by simp
    ultimately show ?thesis using nb by simp
  next
    case False
    with k h' have kh: "k \<le> ?h" by auto
    from b m [OF False] have old: "bc_blocks c k = Some b" by simp
    from kh have "k - 1 \<noteq> ?h + 1" by simp
    from link [OF old k(1) kh] m [OF this] show ?thesis by simp
  qed
  from bc_addTransaction_stateFile [OF step]
  have 5: "\<exists>st. bc_stateFile c' = Some st \<and> 0 \<le> bs_blockHeight st
          \<and> bs_blockHeight st \<le> bs_blockHeight (bc_state c')"
    using st h' 1 by auto
  show ?thesis
    unfolding bc_sound_def using 1 2 3 4 5 by blast
qed

lemma bc_sound_restart:
  assumes inv: "bc_sound c"
  shows "\<exists>c'. bc_initialize (bc_dataDir c) (bc_blocks c) (bc_txs c) (bc_stateFile c) isoNow f
               = Inr c' \<and> bc_sound c'"
proof -
  let ?h = "bs_blockHeight (bc_state c)"
  from inv obtain st where st: "bc_stateFile c = Some st" "0 \<le> bs_blockHeight st"
    "bs_blockHeight st \<le> ?h"
    by (auto simp: bc_sound_def)
  from inv have down: "\<And>k. 0 \<le> k \<Longrightarrow> k \<le> ?h \<Longrightarrow> bc_blocks c k \<noteq> None"
    and ok: "\<And>k b. bc_blocks c k = Some b \<Longrightarrow> bk_number b = k \<and> bc_block_ok b"
    and link: "\<And>k b. bc_blocks c k = Some b \<Longrightarrow> 0 < k \<Longrightarrow> k \<le> ?h \<Longrightarrow>
          \<exists>p. bc_blocks c (k - 1) = Some p \<and> bk_previousHash b = bk_hash p"
    by (simp_all add: bc_sound_def)
  let ?c' = "\<lparr>bc_dataDir = bc_dataDir c, bc_state = st, bc_blocks = bc_blocks c,
          bc_txs = bc_txs c, bc_stateFile = Some st\<rparr>"
  have "bc_sound ?c'"
    unfolding bc_sound_def
  proof (intro conjI allI impI)
    show "0 \<le> bs_blockHeight (bc_state ?c')" using st by simp
  next
    fix k assume "0 \<le> k \<and> k \<le> bs_blockHeight (bc_state ?c')"
    with st down [of k] show "bc_blocks ?c' k \<noteq> None" by simp
  next
    fix k b assume "bc_blocks ?c' k = Some b"
    with ok [of k b] show "bk_number b = k" "bc_block_ok b" by simp_all
  next
    fix k b assume "bc_blocks ?c' k = Some b" "0 < k \<and> k \<le> bs_blockHeight (bc_state ?c')"
    with link [of k b] st
    show "\<exists>p. bc_blocks ?c' (k - 1) = Some p \<and> bk_previousHash b = bk_hash p" by simp
  next
    show "\<exists>s. bc_stateFile ?c' = Some s \<and> 0 \<le> bs_blockHeight s
          \<and> bs_blockHeight s \<le> bs_blockHeight (bc_state ?c')"
      using st by simp
  qed
  with st show ?thesis by (simp add: bc_initialize_load)
qed

lemma bc_steps_sound:
  "bc_sound c \<Longrightarrow> \<exists>c'. bc_steps c steps = Inr c' \<and> bc_sound c'"
proof (induction steps arbitrary: c)
  case Nil
  then show ?case by simp
next
  case (Cons s ss)
  show ?case
  proof (cases s)
    case (Append x)
    obtain r c1 where a: "bc_call c x = (r, c1)" by (cases "bc_call c x")
    then have "bc_sound c1"
      using bc_sound_step [OF Cons.prems] by (simp add: bc_call_def)
    from Cons.IH [OF this] Append a show ?thesis by simp
  next
    case (Restart isoNow now f)
    from bc_sound_restart [OF Cons.prems, of isoNow f]
    obtain c1 where r: "bc_initialize (bc_dataDir c) (bc_blocks c) (bc_txs c) (bc_stateFile c)
        isoNow f = Inr c1" and s1: "bc_sound c1"
      by blast
    from Cons.IH [OF s1] Restart r show ?thesis by simp
  qed
qed

lemma srv_new_stateFile:
  assumes "srv_new dataDir blockFiles txFiles None isoNow now f = Inr c"
  shows "sv_stateFile c = Some (sv_state c)"
  using assms
  by (auto simp: srv_new_def srv_createGenesisBlock_def srv_saveBlock_def
      srv_saveState_def Let_def split: if_splits)

lemma srv_new_load:
  "srv_new dataDir blockFiles txFiles (Some st) isoNow now f =
     Inr \<lparr>sv_dataDir = dataDir, sv_state = st, sv_blocks = blockFiles,
          sv_txs = txFiles, sv_stateFile = Some st\<rparr>"
  by (simp add: srv_new_def)

lemma srv_addTransaction_stateFile:
  assumes "srv_addTransaction c type data timestamp now1 now2 f = (r, c')"
  shows "sv_stateFile c' = sv_stateFile c \<or> sv_stateFile c' = Some (sv_state c')"
  using assms
  by (auto simp: srv_addTransaction_def srv_saveBlock_def srv_saveState_def Let_def
      split: if_splits option.splits)

lemma srv_sound_init:
  assumes "srv_new dataDir Map.empty Map.empty None isoNow now f = Inr c"
  shows "srv_sound c"
proof -
  from srv_inv_init [OF assms] have i: "srv_inv c" by simp
  from srv_new_stateFile [OF assms] have s: "sv_stateFile c = Some (sv_state c)" .
  from i have h0: "0 \<le> ss_blockHeight (sv_state c)"
    and down: "\<And>k. 0 \<le> k \<Longrightarrow> k \<le> ss_blockHeight (sv_state c) \<Longrightarrow> sv_blocks c k \<noteq> None"
    and ok: "\<And>k b. sv_blocks c k = Some b \<Longrightarrow>
          sb_number b = k \<and> srv_block_ok b
        \<and> (0 < k \<longrightarrow> (\<exists>p. sv_blocks c (k - 1) = Some p \<and> sb_prevHash b = sb_hash p))"
    by (simp_all add: srv_inv_def)
  show ?thesis
    unfolding srv_sound_def using h0 down ok s by auto
qed

lemma srv_sound_step:
  assumes inv: "srv_sound c" and step: "srv_addTransaction c type data timestamp now1 now2 f = (r, c')"
  shows "srv_sound c'"
proof (cases "srv_getLatestBlock c")
  case None
  with step inv show ?thesis by (simp add: srv_addTransaction_missing)
next
  case (Some latest)
  let ?h = "ss_blockHeight (sv_state c)"
  let ?nb = "srv_newBlock latest type data timestamp now1 now2"
  from Some have l: "sv_blocks c ?h = Some latest"
    by (simp add: srv_getLatestBlock_def srv_getBlock_def)
  from inv l have n: "sb_number latest = ?h" by (simp add: srv_sound_def)
  from inv have h0: "0 \<le> ?h" by (simp add: srv_sound_def)
  from inv have down: "\<And>k. 0 \<le> k \<Longrightarrow> k \<le> ?h \<Longrightarrow> sv_blocks c k \<noteq> None"
    and ok: "\<And>k b. sv_blocks c k = Some b \<Longrightarrow> sb_number b = k \<and> srv_block_ok b"
    and link: "\<And>k b. sv_blocks c k = Some b \<Longrightarrow> 0 < k \<Longrightarrow> k \<le> ?h \<Longrightarrow>
          \<exists>p. sv_blocks c (k - 1) = Some p \<and> sb_prevHash b = sb_hash p"
    by (simp_all add: srv_sound_def)
  from inv obtain st where st: "sv_stateFile c = Some st" "0 \<le> ss_blockHeight st"
    "ss_blockHeight st \<le> ?h"
    by (auto simp: srv_sound_def)
  from srv_addTransaction_effect [OF Some step]
  have eff: "(sv_blocks c' = sv_blocks c \<and> ss_blockHeight (sv_state c') = ?h)
      \<or> (sv_blocks c' = (sv_blocks c)(?h + 1 \<mapsto> ?nb)
          \<and> (ss_blockHeight (sv_state c') = ?h \<or> ss_blockHeight (sv_state c') = ?h + 1))"
    using n by auto
  have h': "ss_blockHeight (sv_state c') = ?h \<or> ss_blockHeight (sv_state c') = ?h + 1"
    using eff by auto
  have m: "sv_blocks c' k = sv_blocks c k" if "k \<noteq> ?h + 1" for k
    using eff that by auto
  have top: "sv_blocks c' (?h + 1) = Some ?nb" if "ss_blockHeight (sv_state c') = ?h + 1"
    using eff that by auto
  have new: "b = ?nb \<or> sv_blocks c (?h + 1) = Some b" if "sv_blocks c' (?h + 1) = Some b" for b
    using eff that by auto
  note nb = srv_newBlock_ok [of latest type data timestamp now1 now2]
  have 1: "0 \<le> ss_blockHeight (sv_state c')" using h' h0 by auto
  have 2: "sv_blocks c' k \<noteq> None" if k: "0 \<le> k" "k \<le> ss_blockHeight (sv_state c')" for k
  proof (cases "k = ?h + 1")
    case True
    with k h' have "ss_blockHeight (sv_state c') = ?h + 1" by auto
    from top [OF this] True show ?thesis by simp
  next
    case False
    with k h' have "k \<le> ?h" by auto
    with down [of k] k(1) m [OF False] show ?thesis by simp
  qed
  have 3: "sb_number b = k \<and> srv_block_ok b" if b: "sv_blocks c' k = Some b" for k b
  proof (cases "k = ?h + 1")
    case True
    with b new [of b] have "b = ?nb \<or> sv_blocks c k = Some b" by simp
    then show ?thesis using nb n True ok [of k b] by auto
  next
    case False
    with b m [OF False] ok [of k b] show ?thesis by simp
  qed
  have 4: "\<exists>p. sv_blocks c' (k - 1) = Some p \<and> sb_prevHash b = sb_hash p"
    if b: "sv_blocks c' k = Some b" and k: "0 < k" "k \<le> ss_blockHeight (sv_state c')" for k b
  proof (cases "k = ?h + 1")
    case True
    with k h' have "ss_blockHeight (sv_state c') = ?h + 1" by auto
    from top [OF this] b True have "b = ?nb" by simp
    moreover have "sv_blocks c' (k - 1) = Some latest" using True l m [of "k - 1"] by simp
    ultimately show ?thesis using nb by simp
  next
    case False
    with k h' have kh: "k \<le> ?h" by auto
    from b m [OF False] have old: "sv_blocks c k = Some b" by simp
    from kh have "k - 1 \<noteq> ?h + 1" by simp
    from link [OF old k(1) kh] m [OF this] show ?thesis by simp
  qed
  from srv_addTransaction_stateFile [OF step]
  have 5: "\<exists>st. sv_stateFile c' = Some st \<and> 0 \<le> ss_blockHeight st
          \<and> ss_blockHeight st \<le> ss_blockHeight (sv_state c')"
    using st h' 1 by auto
  show ?thesis
    unfolding srv_sound_def using 1 2 3 4 5 by blast
qed

lemma srv_sound_restart:
  assumes inv: "srv_sound c"
  shows "\<exists>c'. srv_new (sv_dataDir c) (sv_blocks c) (sv_txs c) (sv_stateFile c) isoNow now f
               = Inr c' \<and> srv_sound c'"
proof -
  let ?h = "ss_blockHeight (sv_state c)"
  from inv obtain st where st: "sv_stateFile c = Some st" "0 \<le> ss_blockHeight st"
    "ss_blockHeight st \<le> ?h"
    by (auto simp: srv_sound_def)
  from inv have down: "\<And>k. 0 \<le> k \<Longrightarrow> k \<le> ?h \<Longrightarrow> sv_blocks c k \<noteq> None"
    and ok: "\<And>k b. sv_blocks c k = Some b \<Longrightarrow> sb_number b = k \<and> srv_block_ok b"
    and link: "\<And>k b. sv_blocks c k = Some b \<Longrightarrow> 0 < k \<Longrightarrow> k \<le> ?h \<Longrightarrow>
          \<exists>p. sv_blocks c (k - 1) = Some p \<and> sb_prevHash b = sb_hash p"
    by (simp_all add: srv_sound_def)
  let ?c' = "\<lparr>sv_dataDir = sv_dataDir c, sv_state = st, sv_blocks = sv_blocks c,
          sv_txs = sv_txs c, sv_stateFile = Some st\<rparr>"
  have "srv_sound ?c'"
    unfolding srv_sound_def
  proof (intro conjI allI impI)
    show "0 \<le> ss_blockHeight (sv_state ?c')" using st by simp
  next
    fix k assume "0 \<le> k \<and> k \<le> ss_blockHeight (sv_state ?c')"
    with st down [of k] show "sv_blocks ?c' k \<noteq> None" by simp
  next
    fix k b assume "sv_blocks ?c' k = Some b"
    with ok [of k b] show "sb_number b = k" "srv_block_ok b" by simp_all
  next
    fix k b assume "sv_blocks ?c' k = Some b" "0 < k \<and> k \<le> ss_blockHeight (sv_state ?c')"
    with link [of k b] st
    show "\<exists>p. sv_blocks ?c' (k - 1) = Some p \<and> sb_prevHash b = sb_hash p" by simp
  next
    show "\<exists>s. sv_stateFile ?c' = Some s \<and> 0 \<le> ss_blockHeight s
          \<and> ss_blockHeight s \<le> ss_blockHeight (sv_state ?c')"
      using st by simp
  qed
  with st show ?thesis by (simp add: srv_new_load)
qed

lemma srv_steps_sound:
  "srv_sound c \<Longrightarrow> \<exists>c'. srv_steps c steps = Inr c' \<and> srv_sound c'"
proof (induction steps arbitrary: c)
  case Nil
  then show ?case by simp
next
  case (Cons s ss)
  show ?case
  proof (cases s)
    case (Append x)
    obtain r c1 where a: "srv_call c x = (r, c1)" by (cases "srv_call c x")
    then have "srv_sound c1"
      using srv_sound_step [OF Cons.prems] by (simp add: srv_call_def)
    from Cons.IH [OF this] Append a show ?thesis by simp
  next
    case (Restart isoNow now f)
    from srv_sound_restart [OF Cons.prems, of isoNow now f]
    obtain c1 where r: "srv_new (sv_dataDir c) (sv_blocks c) (sv_txs c) (sv_stateFile c)
        isoNow now f = Inr c1" and s1: "srv_sound c1"
      by blast
    from Cons.IH [OF s1] Restart r show ?thesis by simp
  qed
qed

lemma bc_steps_sample:
  "case bc_initialize ''./blockchain-data'' Map.empty Map.empty None
          ''2024-01-01T00:00:00.000Z'' None of
     Inl err \<Rightarrow> False
   | Inr c0 \<Rightarrow>
       (case bc_steps c0
               [Append call_a, Restart ''2024-01-01T00:00:01.500Z'' 1704067201500 None,
                Append call_b] of
          Inl err \<Rightarrow> False
        | Inr c \<Rightarrow>
            (case bc_getBlock c 2 of
               None \<Rightarrow> False
             | Some b \<Rightarrow> bs_blockHeight (bc_state c) = 2))"
  by (simp add: bc_initialize_def bc_createGenesisBlock_def bc_saveBlock_def
      bc_saveState_def Let_def bc_addTransaction_def bc_getLatestBlock_def bc_getBlock_def
      bc_call_def call_a_def call_b_def)

lemma srv_steps_sample:
  "case srv_new ''./blockchain-data'' Map.empty Map.empty None
          ''2024-01-01T00:00:00.000Z'' 1704067200000 None of
     Inl err \<Rightarrow> False
   | Inr s0 \<Rightarrow>
       (case srv_steps s0
               [Append call_a, Restart ''2024-01-01T00:00:01.500Z'' 1704067201500 None,
                Append call_b] of
          Inl err \<Rightarrow> False
        | Inr s \<Rightarrow>
            (case srv_getBlock s 2 of
               None \<Rightarrow> False
             | Some b \<Rightarrow> ss_blockHeight (sv_state s) = 2))"
  by (simp add: srv_new_def srv_createGenesisBlock_def srv_saveBlock_def
      srv_saveState_def Let_def srv_addTransaction_def srv_getLatestBlock_def srv_getBlock_def
      srv_call_def call_a_def call_b_def del: stringify.simps)

text \<open>
  The digests of a history of \<^verbatim>\<open>blockchain.js\<close>, computed by the definitions: the
  genesis transaction, its leaf and the genesis block; the transaction, leaf and block
  of \<open>call_a\<close> appended to it; the transaction, leaf and block of \<open>call_c\<close> appended
  to it.
\<close>

lemma merkle_while_single: "merkle_while [d] = [d]"
  by (subst merkle_while.simps) simp

lemma digest_g_tx:
  "bc_calculateTransactionHash
     \<lparr>tx_type = ''GENESIS'', tx_data = genesis_data, tx_timestamp = ''2024-01-01T00:00:00.000Z'',
        tx_nonce = Some 0, tx_hash = []\<rparr>
   = ''5d0e6efd6d679ff592ed58a09af1a28ff563eedf543cef161a89ea94a447af70''"
  by code_simp

lemma digest_g_leaf:
  "bc_calculateMerkleRoot
     [\<lparr>tx_type = ''GENESIS'', tx_data = genesis_data, tx_timestamp = ''2024-01-01T00:00:00.000Z'',
        tx_nonce = Some 0, tx_hash = ''5d0e6efd6d679ff592ed58a09af1a28ff563eedf543cef161a89ea94a447af70''\<rparr>]
   = ''37cae0a7b01b3c92e504537689d3f07eababed4f4708d12a5d29f113cb1137a5''"
  by code_simp

lemma digest_g_block:
  "bc_calculateBlockHash
     \<lparr>bk_number = 0, bk_timestamp = ''2024-01-01T00:00:00.000Z'',
      bk_previousHash = zero_digest,
      bk_merkleRoot = ''37cae0a7b01b3c92e504537689d3f07eababed4f4708d12a5d29f113cb1137a5'',
      bk_transactions =
       [\<lparr>tx_type = ''GENESIS'', tx_data = genesis_data, tx_timestamp = ''2024-01-01T00:00:00.000Z'',
        tx_nonce = Some 0, tx_hash = ''5d0e6efd6d679ff592ed58a09af1a28ff563eedf543cef161a89ea94a447af70''\<rparr>],
      bk_nonce = 0, bk_difficulty = 1, bk_miner = ''genesis'', bk_hash = []\<rparr>
   = ''7e312afb4fd359e29e5f19897c6e3a5315dbf73696c31c88cd4a7514afd72a0f''"
  by code_simp

lemma digest_a_tx:
  "bc_calculateTransactionHash
     \<lparr>tx_type = ''DID_REGISTRATION'', tx_data = JObj [(''nik'', JStr ''123'')], tx_timestamp = ''2024-01-01T00:00:01.000Z'',
        tx_nonce = Some 1704067201000, tx_hash = []\<rparr>
   = ''c27d57276b08c18b2226b271296e31b74e6b7cf03ca7e533223fdbb7f0ab4054''"
  by code_simp

lemma digest_a_leaf:
  "bc_calculateMerkleRoot
     [\<lparr>tx_type = ''DID_REGISTRATION'', tx_data = JObj [(''nik'', JStr ''123'')], tx_timestamp = ''2024-01-01T00:00:01.000Z'',
        tx_nonce = Some 1704067201000, tx_hash = ''c27d57276b08c18b2226b271296e31b74e6b7cf03ca7e533223fdbb7f0ab4054''\<rparr>]
   = ''15690542ece5eaabf55e9574ab677109ab9ed9d8226650a2a01b57a191a5d006''"
  by code_simp

lemma digest_a_block:
  "bc_calculateBlockHash
     \<lparr>bk_number = 1, bk_timestamp = ''2024-01-01T00:00:01.000Z'',
      bk_previousHash = ''7e312afb4fd359e29e5f19897c6e3a5315dbf73696c31c88cd4a7514afd72a0f'',
      bk_merkleRoot = ''15690542ece5eaabf55e9574ab677109ab9ed9d8226650a2a01b57a191a5d006'',
      bk_transactions =
       [\<lparr>tx_type = ''DID_REGISTRATION'', tx_data = JObj [(''nik'', JStr ''123'')], tx_timestamp = ''2024-01-01T00:00:01.000Z'',
        tx_nonce = Some 1704067201000, tx_hash = ''c27d57276b08c18b2226b271296e31b74e6b7cf03ca7e533223fdbb7f0ab4054''\<rparr>],
      bk_nonce = 0, bk_difficulty = 1, bk_miner = ''local-node'', bk_hash = []\<rparr>
   = ''d3ec77f11872155d24839f6429d51ef9f94f20495d7e1832305a31aa7c563d4d''"
  by code_simp

lemma digest_c_tx:
  "bc_calculateTransactionHash
     \<lparr>tx_type = ''CONSENT_REVOKED'', tx_data = JObj [(''consentId'', JStr ''C1'')], tx_timestamp = ''2024-01-01T00:00:03.000Z'',
        tx_nonce = Some 1704067203000, tx_hash = []\<rparr>
   = ''b271f6dad1ac4f559ff7b1e6d287cc10481cb00267c799f836f0a1d8108fd664''"
  by code_simp

lemma digest_c_leaf:
  "bc_calculateMerkleRoot
     [\<lparr>tx_type = ''CONSENT_REVOKED'', tx_data = JObj [(''consentId'', JStr ''C1'')], tx_timestamp = ''2024-01-01T00:00:03.000Z'',
        tx_nonce = Some 1704067203000, tx_hash = ''b271f6dad1ac4f559ff7b1e6d287cc10481cb00267c799f836f0a1d8108fd664''\<rparr>]
   = ''b429a04287c332f813ef1ec970c5e8e8c4009b54532fa7f482def7cc1234a9c2''"
  by code_simp

lemma digest_c_block:
  "bc_calculateBlockHash
     \<lparr>bk_number = 1, bk_timestamp = ''2024-01-01T00:00:03.000Z'',
      bk_previousHash = ''7e312afb4fd359e29e5f19897c6e3a5315dbf73696c31c88cd4a7514afd72a0f'',
      bk_merkleRoot = ''b429a04287c332f813ef1ec970c5e8e8c4009b54532fa7f482def7cc1234a9c2'',
      bk_transactions =
       [\<lparr>tx_type = ''CONSENT_REVOKED'', tx_data = JObj [(''consentId'', JStr ''C1'')], tx_timestamp = ''2024-01-01T00:00:03.000Z'',
        tx_nonce = Some 1704067203000, tx_hash = ''b271f6dad1ac4f559ff7b1e6d287cc10481cb00267c799f836f0a1d8108fd664''\<rparr>],
      bk_nonce = 0, bk_difficulty = 1, bk_miner = ''local-node'', bk_hash = []\<rparr>
   = ''861623a97c07aaea637ff814880bb6e60949a86000f04ae579430b65b6c01123''"
  by code_simp

text \<open>
  C1, as amended. Take a chain initialised in an empty directory and any history of
  \<open>addTransaction\<close> calls (throwing or not) and restarts from disk: the history runs to
  its end, and at its end every stored block is stored under its own number, has as
  hash the digest of \<open>number|timestamp|previousHash|merkleRoot|nonce\<close> and as Merkle
  root the root computed over its transactions, and every stored block with a number
  above 0 and up to the head height names as previous hash the stored hash of the block
  with the preceding number. As long as the object is not constructed again, that is
  after any sequence of calls on the object that initialised the directory, every
  stored block with a number above 0 names the stored hash of the block before it.
  Both classes (\<open>prevHash\<close> in \<^verbatim>\<open>server.js\<close>).
\<close>

theorem blocks_invariant:
  "(bc_initialize dataDir Map.empty Map.empty None now f = Inr c0 \<longrightarrow>
      (\<exists>c'. bc_steps c0 steps = Inr c')
    \<and> (bc_steps c0 steps = Inr c \<longrightarrow> bc_getBlock c k = Some b \<longrightarrow>
          bk_hash b = sha256 (show_int (bk_number b) @ ''|'' @ bk_timestamp b @ ''|''
                              @ bk_previousHash b @ ''|'' @ bk_merkleRoot b @ ''|''
                              @ show_int (bk_nonce b))
        \<and> bk_merkleRoot b = bc_calculateMerkleRoot (bk_transactions b)
        \<and> bk_number b = k
        \<and> (0 < bk_number b \<and> bk_number b \<le> bs_blockHeight (bc_state c) \<longrightarrow>
             (\<exists>p. bc_getBlock c (bk_number b - 1) = Some p
                \<and> bk_previousHash b = bk_hash p)))
    \<and> (bc_run c0 calls = (results, c1) \<longrightarrow> bc_getBlock c1 k1 = Some b1 \<longrightarrow>
          bk_hash b1 = sha256 (show_int (bk_number b1) @ ''|'' @ bk_timestamp b1 @ ''|''
                               @ bk_previousHash b1 @ ''|'' @ bk_merkleRoot b1 @ ''|''
                               @ show_int (bk_nonce b1))
        \<and> bk_merkleRoot b1 = bc_calculateMerkleRoot (bk_transactions b1)
        \<and> bk_number b1 = k1
        \<and> (0 < bk_number b1 \<longrightarrow>
             (\<exists>p. bc_getBlock c1 (bk_number b1 - 1) = Some p
                \<and> bk_previousHash b1 = bk_hash p))))
   \<and> (srv_new dataDir' Map.empty Map.empty None isoNow now' f' = Inr s0 \<longrightarrow>
      (\<exists>s'. srv_steps s0 steps' = Inr s')
    \<and> (srv_steps s0 steps' = Inr s \<longrightarrow> srv_getBlock s k' = Some b' \<longrightarrow>
          sb_hash b' = sha256 (show_int (sb_number b') @ ''|'' @ sb_timestamp b' @ ''|''
                               @ sb_prevHash b' @ ''|'' @ sb_merkleRoot b' @ ''|''
                               @ show_int (sb_nonce b'))
        \<and> sb_merkleRoot b' = srv_calculateMerkleRoot (sb_transactions b')
        \<and> sb_number b' = k'
        \<and> (0 < sb_number b' \<and> sb_number b' \<le> ss_blockHeight (sv_state s) \<longrightarrow>
             (\<exists>p. srv_getBlock s (sb_number b' - 1) = Some p
                \<and> sb_prevHash b' = sb_hash p)))
    \<and> (srv_run s0 calls' = (results', s1) \<longrightarrow> srv_getBlock s1 k1' = Some b1' \<longrightarrow>
          sb_hash b1' = sha256 (show_int (sb_number b1') @ ''|'' @ sb_timestamp b1' @ ''|''
                                @ sb_prevHash b1' @ ''|'' @ sb_merkleRoot b1' @ ''|''
                                @ show_int (sb_nonce b1'))
        \<and> sb_merkleRoot b1' = srv_calculateMerkleRoot (sb_transactions b1')
        \<and> sb_number b1' = k1'
        \<and> (0 < sb_number b1' \<longrightarrow>
             (\<exists>p. srv_getBlock s1 (sb_number b1' - 1) = Some p
                \<and> sb_prevHash b1' = sb_hash p))))"
proof (intro conjI impI)
  assume i: "bc_initialize dataDir Map.empty Map.empty None now f = Inr c0"
  from bc_steps_sound [OF bc_sound_init [OF i]]
  show "\<exists>c'. bc_steps c0 steps = Inr c'" by blast
next
  assume i: "bc_initialize dataDir Map.empty Map.empty None now f = Inr c0"
    and r: "bc_steps c0 steps = Inr c" and b: "bc_getBlock c k = Some b"
  from bc_steps_sound [OF bc_sound_init [OF i], of steps] r have "bc_sound c" by simp
  with b have ok: "bk_number b = k" "bc_block_ok b"
    and link: "0 < k \<and> k \<le> bs_blockHeight (bc_state c) \<longrightarrow>
        (\<exists>p. bc_blocks c (k - 1) = Some p \<and> bk_previousHash b = bk_hash p)"
    by (simp_all add: bc_sound_def bc_getBlock_def)
  from ok show "bk_hash b = sha256 (show_int (bk_number b) @ ''|'' @ bk_timestamp b @ ''|''
                          @ bk_previousHash b @ ''|'' @ bk_merkleRoot b @ ''|''
                          @ show_int (bk_nonce b))"
    "bk_merkleRoot b = bc_calculateMerkleRoot (bk_transactions b)" "bk_number b = k"
    by (simp_all add: bc_block_ok_def bc_calculateBlockHash_def)
  assume "0 < bk_number b \<and> bk_number b \<le> bs_blockHeight (bc_state c)"
  with link ok show "\<exists>p. bc_getBlock c (bk_number b - 1) = Some p \<and> bk_previousHash b = bk_hash p"
    by (simp add: bc_getBlock_def)
next
  assume i: "bc_initialize dataDir Map.empty Map.empty None now f = Inr c0"
    and r: "bc_run c0 calls = (results, c1)" and b: "bc_getBlock c1 k1 = Some b1"
  have "bc_inv c1" using bc_run_inv [OF _ r] bc_inv_init [OF i] by simp
  with b have ok: "bk_number b1 = k1" "bc_block_ok b1"
    and link: "0 < k1 \<longrightarrow> (\<exists>p. bc_blocks c1 (k1 - 1) = Some p \<and> bk_previousHash b1 = bk_hash p)"
    by (simp_all add: bc_inv_def bc_getBlock_def)
  from ok show "bk_hash b1 = sha256 (show_int (bk_number b1) @ ''|'' @ bk_timestamp b1 @ ''|''
                               @ bk_previousHash b1 @ ''|'' @ bk_merkleRoot b1 @ ''|''
                               @ show_int (bk_nonce b1))"
    "bk_merkleRoot b1 = bc_calculateMerkleRoot (bk_transactions b1)" "bk_number b1 = k1"
    by (simp_all add: bc_block_ok_def bc_calculateBlockHash_def)
  assume "0 < bk_number b1"
  with link ok show "\<exists>p. bc_getBlock c1 (bk_number b1 - 1) = Some p \<and> bk_previousHash b1 = bk_hash p"
    by (simp add: bc_getBlock_def)
next
  assume i: "srv_new dataDir' Map.empty Map.empty None isoNow now' f' = Inr s0"
  from srv_steps_sound [OF srv_sound_init [OF i]]
  show "\<exists>s'. srv_steps s0 steps' = Inr s'" by blast
next
  assume i: "srv_new dataDir' Map.empty Map.empty None isoNow now' f' = Inr s0"
    and r: "srv_steps s0 steps' = Inr s" and b: "srv_getBlock s k' = Some b'"
  from srv_steps_sound [OF srv_sound_init [OF i], of steps'] r have "srv_sound s" by simp
  with b have ok: "sb_number b' = k'" "srv_block_ok b'"
    and link: "0 < k' \<and> k' \<le> ss_blockHeight (sv_state s) \<longrightarrow>
        (\<exists>p. sv_blocks s (k' - 1) = Some p \<and> sb_prevHash b' = sb_hash p)"
    by (simp_all add: srv_sound_def srv_getBlock_def)
  from ok show "sb_hash b' = sha256 (show_int (sb_number b') @ ''|'' @ sb_timestamp b' @ ''|''
                           @ sb_prevHash b' @ ''|'' @ sb_merkleRoot b' @ ''|''
                           @ show_int (sb_nonce b'))"
    "sb_merkleRoot b' = srv_calculateMerkleRoot (sb_transactions b')" "sb_number b' = k'"
    by (simp_all add: srv_block_ok_def srv_calculateBlockHash_def)
  assume "0 < sb_number b' \<and> sb_number b' \<le> ss_blockHeight (sv_state s)"
  with link ok show "\<exists>p. srv_getBlock s (sb_number b' - 1) = Some p \<and> sb_prevHash b' = sb_hash p"
    by (simp add: srv_getBlock_def)
next
  assume i: "srv_new dataDir' Map.empty Map.empty None isoNow now' f' = Inr s0"
    and r: "srv_run s0 calls' = (results', s1)" and b: "srv_getBlock s1 k1' = Some b1'"
  have "srv_inv s1" using srv_run_inv [OF _ r] srv_inv_init [OF i] by simp
  with b have ok: "sb_number b1' = k1'" "srv_block_ok b1'"
    and link: "0 < k1' \<longrightarrow> (\<exists>p. sv_blocks s1 (k1' - 1) = Some p \<and> sb_prevHash b1' = sb_hash p)"
    by (simp_all add: srv_inv_def srv_getBlock_def)
  from ok show "sb_hash b1' = sha256 (show_int (sb_number b1') @ ''|'' @ sb_timestamp b1' @ ''|''
                                @ sb_prevHash b1' @ ''|'' @ sb_merkleRoot b1' @ ''|''
                                @ show_int (sb_nonce b1'))"
    "sb_merkleRoot b1' = srv_calculateMerkleRoot (sb_transactions b1')" "sb_number b1' = k1'"
    by (simp_all add: srv_block_ok_def srv_calculateBlockHash_def)
  assume "0 < sb_number b1'"
  with link ok show "\<exists>p. srv_getBlock s1 (sb_number b1' - 1) = Some p \<and> sb_prevHash b1' = sb_hash p"
    by (simp add: srv_getBlock_def)
qed

theorem blocks_invariant_witness:
  "(case bc_initialize ''./blockchain-data'' Map.empty Map.empty None
           ''2024-01-01T00:00:00.000Z'' None of
      Inl err \<Rightarrow> False
    | Inr c0 \<Rightarrow>
        (case bc_steps c0
                [Append call_a, Restart ''2024-01-01T00:00:01.500Z'' 1704067201500 None,
                 Append call_b] of
           Inl err \<Rightarrow> False
         | Inr c \<Rightarrow>
             (case bc_getBlock c 2 of
                None \<Rightarrow> False
              | Some b \<Rightarrow>
                  (case bc_getBlock c 1 of
                     None \<Rightarrow> False
                   | Some p \<Rightarrow>
                       bs_blockHeight (bc_state c) = 2
                       \<and> bk_number b = 2 \<and> bk_previousHash b = bk_hash p
                       \<and> bk_hash b = bc_calculateBlockHash b
                       \<and> bk_merkleRoot b = bc_calculateMerkleRoot (bk_transactions b))))
        \<and> (case bc_run c0 [call_a, call_b] of
             (results, c) \<Rightarrow>
               (case bc_getBlock c 2 of
                  None \<Rightarrow> False
                | Some b \<Rightarrow>
                    (case bc_getBlock c 1 of
                       None \<Rightarrow> False
                     | Some p \<Rightarrow>
                         bk_number b = 2 \<and> bk_previousHash b = bk_hash p
                         \<and> bk_hash b = bc_calculateBlockHash b
                         \<and> bk_merkleRoot b = bc_calculateMerkleRoot (bk_transactions b)))))
   \<and> (case srv_new ''./blockchain-data'' Map.empty Map.empty None
           ''2024-01-01T00:00:00.000Z'' 1704067200000 None of
      Inl err \<Rightarrow> False
    | Inr s0 \<Rightarrow>
        (case srv_steps s0
                [Append call_a, Restart ''2024-01-01T00:00:01.500Z'' 1704067201500 None,
                 Append call_b] of
           Inl err \<Rightarrow> False
         | Inr s \<Rightarrow>
             (case srv_getBlock s 2 of
                None \<Rightarrow> False
              | Some b \<Rightarrow>
                  (case srv_getBlock s 1 of
                     None \<Rightarrow> False
                   | Some p \<Rightarrow>
                       ss_blockHeight (sv_state s) = 2
                       \<and> sb_number b = 2 \<and> sb_prevHash b = sb_hash p
                       \<and> sb_hash b = srv_calculateBlockHash b
                       \<and> sb_merkleRoot b = srv_calculateMerkleRoot (sb_transactions b))))
        \<and> (case srv_run s0 [call_a, call_b] of
             (results, s) \<Rightarrow>
               (case srv_getBlock s 2 of
                  None \<Rightarrow> False
                | Some b \<Rightarrow>
                    (case srv_getBlock s 1 of
                       None \<Rightarrow> False
                     | Some p \<Rightarrow>
                         sb_number b = 2 \<and> sb_prevHash b = sb_hash p
                         \<and> sb_hash b = srv_calculateBlockHash b
                         \<and> sb_merkleRoot b = srv_calculateMerkleRoot (sb_transactions b)))))"
proof -
  let ?steps = "[Append call_a, Restart ''2024-01-01T00:00:01.500Z'' 1704067201500 None,
                 Append call_b]"
  have nf: "\<forall>x\<in>set [call_a, call_b]. c_fault x = None"
    by (simp add: call_a_def call_b_def)
  \<comment> \<open>blockchain.js\<close>
  obtain c0 where i: "bc_initialize ''./blockchain-data'' Map.empty Map.empty None
           ''2024-01-01T00:00:00.000Z'' None = Inr c0"
    using bc_initialize_returns by blast
  from bc_steps_sample i obtain c b where st: "bc_steps c0 ?steps = Inr c"
    and b: "bc_getBlock c 2 = Some b" and h: "bs_blockHeight (bc_state c) = 2"
    by (auto split: sum.splits option.splits)
  obtain results c1 where r: "bc_run c0 [call_a, call_b] = (results, c1)"
    by (cases "bc_run c0 [call_a, call_b]")
  have ok: "\<forall>r\<in>set results. \<not> isl r"
    using bc_run_no_fault [OF _ nf r] bc_inv_init [OF i] by simp
  from bc_fresh_run [OF i r ok] have "2 \<in> dom (bc_blocks c1)" by simp
  then obtain b1 where b1: "bc_getBlock c1 2 = Some b1" by (auto simp: bc_getBlock_def)
  \<comment> \<open>server.js\<close>
  obtain s0 where i': "srv_new ''./blockchain-data'' Map.empty Map.empty None
           ''2024-01-01T00:00:00.000Z'' 1704067200000 None = Inr s0"
    using srv_new_returns by blast
  from srv_steps_sample i' obtain s b' where st': "srv_steps s0 ?steps = Inr s"
    and b': "srv_getBlock s 2 = Some b'" and h': "ss_blockHeight (sv_state s) = 2"
    by (auto split: sum.splits option.splits)
  obtain results' s1 where r': "srv_run s0 [call_a, call_b] = (results', s1)"
    by (cases "srv_run s0 [call_a, call_b]")
  have ok': "\<forall>r\<in>set results'. \<not> isl r"
    using srv_run_no_fault [OF _ nf r'] srv_inv_init [OF i'] by simp
  from srv_fresh_run [OF i' r' ok'] have "2 \<in> dom (sv_blocks s1)" by simp
  then obtain b1' where b1': "srv_getBlock s1 2 = Some b1'" by (auto simp: srv_getBlock_def)
  note th = blocks_invariant [where dataDir = "''./blockchain-data''"
      and now = "''2024-01-01T00:00:00.000Z''" and f = None and ?c0.0 = c0
      and steps = ?steps and c = c and k = 2 and b = b
      and calls = "[call_a, call_b]" and results = results and ?c1.0 = c1 and ?k1.0 = 2
      and ?b1.0 = b1
      and dataDir' = "''./blockchain-data''" and isoNow = "''2024-01-01T00:00:00.000Z''"
      and now' = 1704067200000 and f' = None and ?s0.0 = s0
      and steps' = ?steps and s = s and k' = 2 and b' = b'
      and calls' = "[call_a, call_b]" and results' = results' and ?s1.0 = s1
      and ?k1' = 2 and ?b1' = b1']
  from th i st b have n: "bk_number b = 2"
    and hh: "bk_hash b = bc_calculateBlockHash b"
    and m: "bk_merkleRoot b = bc_calculateMerkleRoot (bk_transactions b)"
    by (simp_all add: bc_calculateBlockHash_def)
  from th i st b n h obtain p where p: "bc_getBlock c 1 = Some p" "bk_previousHash b = bk_hash p"
    by auto
  from th i r b1 have n1: "bk_number b1 = 2"
    and hh1: "bk_hash b1 = bc_calculateBlockHash b1"
    and m1: "bk_merkleRoot b1 = bc_calculateMerkleRoot (bk_transactions b1)"
    by (simp_all add: bc_calculateBlockHash_def)
  from th i r b1 n1 obtain p1 where p1: "bc_getBlock c1 1 = Some p1" "bk_previousHash b1 = bk_hash p1"
    by auto
  from th i' st' b' have n': "sb_number b' = 2"
    and hh': "sb_hash b' = srv_calculateBlockHash b'"
    and m': "sb_merkleRoot b' = srv_calculateMerkleRoot (sb_transactions b')"
    by (simp_all add: srv_calculateBlockHash_def)
  from th i' st' b' n' h' obtain p' where p': "srv_getBlock s 1 = Some p'" "sb_prevHash b' = sb_hash p'"
    by auto
  from th i' r' b1' have n1': "sb_number b1' = 2"
    and hh1': "sb_hash b1' = srv_calculateBlockHash b1'"
    and m1': "sb_merkleRoot b1' = srv_calculateMerkleRoot (sb_transactions b1')"
    by (simp_all add: srv_calculateBlockHash_def)
  from th i' r' b1' n1' obtain p1' where p1': "srv_getBlock s1 1 = Some p1'" "sb_prevHash b1' = sb_hash p1'"
    by auto
  from i st b h n hh m p r b1 n1 hh1 m1 p1 i' st' b' h' n' hh' m' p' r' b1' n1' hh1' m1' p1'
  show ?thesis by simp
qed

text \<open>
  C1 as stated fails for a block beyond the head after a restart. In \<^verbatim>\<open>blockchain.js\<close>:
  two calls whose write of \<open>state.json\<close> throws store blocks 1 and 2 and leave height 0
  on disk; the object constructed next loads height 0, and its first call stores a new
  block 1 over the old one. Block 2 is still stored and names the hash of the block 1
  that is gone, not the hash of the block 1 that is stored.
\<close>

theorem blocks_invariant_counterexample:
  "case bc_initialize ''./blockchain-data'' Map.empty Map.empty None
          ''2024-01-01T00:00:00.000Z'' None of
     Inl err \<Rightarrow> False
   | Inr c0 \<Rightarrow>
       (case bc_steps c0
               [Append (call_a\<lparr>c_fault := Some 2\<rparr>), Append (call_b\<lparr>c_fault := Some 2\<rparr>),
                Restart ''2024-01-01T00:00:02.500Z'' 1704067202500 None, Append call_c] of
          Inl err \<Rightarrow> False
        | Inr c \<Rightarrow>
            (case bc_getBlock c 2 of
               None \<Rightarrow> False
             | Some b \<Rightarrow>
                 (case bc_getBlock c 1 of
                    None \<Rightarrow> False
                  | Some p \<Rightarrow>
                      bk_number b = 2 \<and> bk_number p = 1
                      \<and> bk_previousHash b
                          = ''d3ec77f11872155d24839f6429d51ef9f94f20495d7e1832305a31aa7c563d4d''
                      \<and> bk_hash p
                          = ''861623a97c07aaea637ff814880bb6e60949a86000f04ae579430b65b6c01123''
                      \<and> bk_previousHash b \<noteq> bk_hash p)))"
  by (simp add: bc_initialize_def bc_createGenesisBlock_def bc_saveBlock_def
      bc_saveState_def Let_def bc_addTransaction_def bc_getLatestBlock_def bc_getBlock_def
      bc_call_def call_a_def call_b_def call_c_def digest_g_tx digest_g_leaf digest_g_block digest_a_tx digest_a_leaf
      digest_a_block digest_c_tx digest_c_leaf digest_c_block)

end
